theory Spec2Isabelle
  imports Main "HOL-Library.Word"
begin

unbundle bit_operations_syntax

section \<open>Bytes, time and errors\<close>

text \<open>
  A Go \<open>[]byte\<close> is a list of 8-bit words; a Go string literal used as bytes is converted
  with \<open>bytes_of\<close>. A \<open>time.Time\<close> is the instant it denotes (nanoseconds since the epoch), so that
  \<open>Time.Equal\<close> is equality.
\<close>

type_synonym byte = "8 word"
type_synonym bytes = "byte list"
type_synonym uint64 = "64 word"
type_synonym time = int

definition bytes_of :: "string \<Rightarrow> bytes" where
  "bytes_of s = map of_char s"

text \<open>The message of a \<open>versionNotFoundError\<close>: the three formats used in package store.\<close>

datatype not_found_msg =
    NoVersionFound
  | VersionNotFound time
  | VersionDoesNotExist time

datatype errno = ENOENT | EACCES | ENOTDIR | EISDIR | EIO

text \<open>
  Every error value the modelled code creates or passes on. \<open>PathError\<close> is what the operating
  system returns, \<open>OptionError\<close> an error returned by a caller-supplied option, \<open>CollaboratorError\<close>
  an error returned by a \<open>Dir\<close> implementation, \<open>PanicIndexOutOfRange\<close> the run-time panic of
  an index expression, and \<open>DatabaseDirNotFound\<close> the client error of package deebee for a
  missing directory.
\<close>

datatype error =
    EOF
  | ErrClosed
  | PathError errno
  | OptionError string
  | CollaboratorError string
  | PanicIndexOutOfRange
  | DirIsEmpty
  | ErrorApplyingOption error
  | StoreDirDoesNotExist string
  | MkdirFailed string error
  | LstatFailed string error
  | NotADirectory string
  | VersionNotFoundError not_found_msg
  | ErrorReadingVersions string error
  | ErrorOpeningFile string error
  | ErrorReadingChecksum error
  | InvalidChecksum string
  | ErrorClosingFile error
  | ErrorRemovingFile string error
  | NilDir
  | DatabaseDirNotFound
  | ApplyingOptionFailed error
  | ConfiguredTwice

section \<open>Package checksum: FNV-128a\<close>

text \<open>
  \<open>FNV128a\<close> wraps \<open>fnv.New128a()\<close> of Go's standard library in a \<open>hashSum\<close>. The library's
  \<open>sum128a\<close> is a pair of 64-bit words (\<open>s[0]\<close> the high half, \<open>s[1]\<close> the low half); \<open>Write\<close>
  folds every byte in with an exclusive or and a multiplication by the 128-bit FNV prime
  \<open>2^88 + 0x13b\<close>, carried out on the two halves; \<open>Sum\<close> appends the sixteen bytes, big-endian.
\<close>

type_synonym sum128a = "uint64 \<times> uint64"

definition offset128Lower :: uint64 where
  "offset128Lower = 0x62b821756295c58d"

definition offset128Higher :: uint64 where
  "offset128Higher = 0x6c62272e07bb0142"

definition prime128Lower :: uint64 where
  "prime128Lower = 0x13b"

definition prime128Shift :: nat where
  "prime128Shift = 24"

text \<open>\<open>bits.Mul64\<close>: the high and the low half of the full 128-bit product.\<close>

definition Mul64 :: "uint64 \<Rightarrow> uint64 \<Rightarrow> uint64 \<times> uint64" where
  "Mul64 x y = (let p = (ucast x :: 128 word) * ucast y in (ucast (drop_bit 64 p), ucast p))"

definition New128a :: sum128a where
  "New128a = (offset128Higher, offset128Lower)"

text \<open>The body of the loop of \<open>sum128a.Write\<close>, for one byte \<open>c\<close>.\<close>

fun sum128a_step :: "sum128a \<Rightarrow> byte \<Rightarrow> sum128a" where
  "sum128a_step (s0, s1) c =
     (let x1 = s1 XOR ucast c;
          (m0, m1) = Mul64 prime128Lower x1;
          m0' = m0 + (push_bit prime128Shift x1 + prime128Lower * s0)
      in (m0', m1))"

definition sum128a_Write :: "sum128a \<Rightarrow> bytes \<Rightarrow> sum128a" where
  "sum128a_Write s data = foldl sum128a_step s data"

fun sum128a_Sum :: "sum128a \<Rightarrow> bytes \<Rightarrow> bytes" where
  "sum128a_Sum (s0, s1) inp = inp @
     [ucast (drop_bit 56 s0), ucast (drop_bit 48 s0), ucast (drop_bit 40 s0),
      ucast (drop_bit 32 s0), ucast (drop_bit 24 s0), ucast (drop_bit 16 s0),
      ucast (drop_bit 8 s0), ucast s0,
      ucast (drop_bit 56 s1), ucast (drop_bit 48 s1), ucast (drop_bit 40 s1),
      ucast (drop_bit 32 s1), ucast (drop_bit 24 s1), ucast (drop_bit 16 s1),
      ucast (drop_bit 8 s1), ucast s1]"

text \<open>
  \<open>FNV128a.NewSum()\<close> returns \<open>&hashSum{Hash: fnv.New128a()}\<close>; \<open>hashSum\<close> embeds the hash, so its
  \<open>Write\<close> is the hash's, and \<open>Marshal\<close> is \<open>Hash.Sum([]byte{})\<close>.
\<close>

definition FNV128a_NewSum :: sum128a where
  "FNV128a_NewSum = New128a"

definition hashSum_Write :: "sum128a \<Rightarrow> bytes \<Rightarrow> sum128a" where
  "hashSum_Write f p = sum128a_Write f p"

definition hashSum_Marshal :: "sum128a \<Rightarrow> bytes" where
  "hashSum_Marshal f = sum128a_Sum f []"

text \<open>\<open>fmt.Sprintf("%x", bytes)\<close>, as the tests use it: two lower-case hexadecimal digits a byte.\<close>

definition hexdigit :: "nat \<Rightarrow> char" where
  "hexdigit n = ''0123456789abcdef'' ! n"

definition hex_byte :: "byte \<Rightarrow> string" where
  "hex_byte b = [hexdigit (unat b div 16), hexdigit (unat b mod 16)]"

definition sprintf_x :: "bytes \<Rightarrow> string" where
  "sprintf_x bs = concat (map hex_byte bs)"

section \<open>The operating system\<close>

text \<open>
  The file system is an external collaborator. It is a flat table from paths to nodes, with
  a table of injected faults, so that every error branch of the code can be reached: a
  system call on a path with a fault fails with that error and changes nothing.
\<close>

datatype node = RegularFile bytes | Directory

datatype syscall = SysLstat | SysMkdirAll | SysRemove | SysOpen | SysReadFile | SysRead | SysClose

record world =
  nodes :: "string \<Rightarrow> node option"
  faults :: "syscall \<Rightarrow> string \<Rightarrow> errno option"

text \<open>An open \<open>*os.File\<close>: its name, the bytes of the file it was opened on and the read position.\<close>

record os_File =
  Name :: string
  content :: bytes
  offset :: nat
  isdir :: bool
  closed :: bool

definition IsNotExist :: "error \<Rightarrow> bool" where
  "IsNotExist err = (err = PathError ENOENT)"

definition IsDir :: "node \<Rightarrow> bool" where
  "IsDir stat = (stat = Directory)"

definition os_Lstat :: "world \<Rightarrow> string \<Rightarrow> error + node" where
  "os_Lstat w p =
     (case faults w SysLstat p of
        Some e \<Rightarrow> Inl (PathError e)
      | None \<Rightarrow> (case nodes w p of None \<Rightarrow> Inl (PathError ENOENT) | Some n \<Rightarrow> Inr n))"

definition os_MkdirAll :: "world \<Rightarrow> string \<Rightarrow> error option \<times> world" where
  "os_MkdirAll w p =
     (case faults w SysMkdirAll p of
        Some e \<Rightarrow> (Some (PathError e), w)
      | None \<Rightarrow>
          (case nodes w p of
             Some (RegularFile _) \<Rightarrow> (Some (PathError ENOTDIR), w)
           | Some Directory \<Rightarrow> (None, w)
           | None \<Rightarrow> (None, w\<lparr>nodes := (nodes w)(p \<mapsto> Directory)\<rparr>)))"

definition os_Remove :: "world \<Rightarrow> string \<Rightarrow> error option \<times> world" where
  "os_Remove w p =
     (case faults w SysRemove p of
        Some e \<Rightarrow> (Some (PathError e), w)
      | None \<Rightarrow>
          (case nodes w p of
             None \<Rightarrow> (Some (PathError ENOENT), w)
           | Some _ \<Rightarrow> (None, w\<lparr>nodes := (nodes w)(p := None)\<rparr>)))"

definition os_Open :: "world \<Rightarrow> string \<Rightarrow> error + os_File" where
  "os_Open w p =
     (case faults w SysOpen p of
        Some e \<Rightarrow> Inl (PathError e)
      | None \<Rightarrow>
          (case nodes w p of
             None \<Rightarrow> Inl (PathError ENOENT)
           | Some (RegularFile bs) \<Rightarrow>
               Inr \<lparr>Name = p, content = bs, offset = 0, isdir = False, closed = False\<rparr>
           | Some Directory \<Rightarrow>
               Inr \<lparr>Name = p, content = [], offset = 0, isdir = True, closed = False\<rparr>))"

definition ioutil_ReadFile :: "world \<Rightarrow> string \<Rightarrow> error + bytes" where
  "ioutil_ReadFile w p =
     (case faults w SysReadFile p of
        Some e \<Rightarrow> Inl (PathError e)
      | None \<Rightarrow>
          (case nodes w p of
             None \<Rightarrow> Inl (PathError ENOENT)
           | Some (RegularFile bs) \<Rightarrow> Inr bs
           | Some Directory \<Rightarrow> Inl (PathError EISDIR)))"

text \<open>
  \<open>(*os.File).Read\<close> into a buffer of length \<open>k\<close>: the bytes delivered (\<open>p[:n]\<close>), the error and
  the file. End-of-stream is reported with no bytes, and only for a buffer that has room.
\<close>

definition file_Read :: "world \<Rightarrow> os_File \<Rightarrow> nat \<Rightarrow> bytes \<times> error option \<times> os_File" where
  "file_Read w f k =
     (if closed f then ([], Some ErrClosed, f)
      else case faults w SysRead (Name f) of
        Some e \<Rightarrow> ([], Some (PathError e), f)
      | None \<Rightarrow>
          if isdir f then ([], Some (PathError EISDIR), f)
          else let bs = take k (drop (offset f) (content f)) in
            if bs = [] \<and> 0 < k then ([], Some EOF, f)
            else (bs, None, f\<lparr>offset := offset f + length bs\<rparr>))"

definition file_Close :: "world \<Rightarrow> os_File \<Rightarrow> error option \<times> os_File" where
  "file_Close w f =
     (if closed f then (Some ErrClosed, f)
      else case faults w SysClose (Name f) of
        Some e \<Rightarrow> (Some (PathError e), f\<lparr>closed := True\<rparr>)
      | None \<Rightarrow> (None, f\<lparr>closed := True\<rparr>))"

section \<open>Package store\<close>

subsection \<open>Store and Open\<close>

text \<open>
  The declaration of \<open>Metrics\<close> is not among the sources; the fields are the ones the code
  updates. \<open>TotalBytesRead\<close> takes \<open>+= n\<close> with \<open>n\<close> an \<open>int\<close> and \<open>TotalTime\<close> takes a
  \<open>time.Duration\<close>, so they have these types; the call counters are \<open>int\<close> too. A Go \<open>int\<close> is
  a word of 64 bits (as on the 64-bit platforms) and a \<open>time.Duration\<close> an \<open>int64\<close>: both are
  read as signed numbers with \<open>sint\<close>, and \<open>+\<close> wraps around.
\<close>

type_synonym go_int = "64 word"
type_synonym Duration = "64 word"

record ReadMetrics =
  ReaderCalls :: go_int
  TotalBytesRead :: go_int
  TotalTime :: Duration

record WriteMetrics =
  WriterCalls :: go_int

record Metrics =
  Read :: ReadMetrics
  Write :: WriteMetrics

record Version =
  Version_Time :: time
  Version_Size :: int

record Store =
  failWhenMissingDir :: bool
  areChecksumsEqual :: "bytes \<Rightarrow> bytes \<Rightarrow> bool"
  dir :: string
  lastVersionTime :: time
  metrics :: Metrics

type_synonym store_Option = "Store \<Rightarrow> error + Store"

text \<open>The comparison \<open>Open\<close> installs: equal bytes, or a sidecar that says \<open>ALTERED\<close>.\<close>

definition default_areChecksumsEqual :: "bytes \<Rightarrow> bytes \<Rightarrow> bool" where
  "default_areChecksumsEqual expected actual =
     (expected = actual \<or> expected = bytes_of ''ALTERED''
      \<or> expected = bytes_of (''ALTERED'' @ [CHR 0x0A])
      \<or> expected = bytes_of (''ALTERED'' @ [CHR 0x0D, CHR 0x0A]))"

definition FailWhenMissingDir :: store_Option where
  "FailWhenMissingDir s = Inr (s\<lparr>failWhenMissingDir := True\<rparr>)"

definition NoIntegrityCheck :: store_Option where
  "NoIntegrityCheck s = Inr (s\<lparr>areChecksumsEqual := (\<lambda>expected actual. True)\<rparr>)"

text \<open>The zero \<open>time.Time\<close> (January 1, year 1) and the zero \<open>Metrics\<close>.\<close>

definition zeroTime :: time where
  "zeroTime = - 62135596800000000000"

definition zeroMetrics :: Metrics where
  "zeroMetrics = \<lparr>Read = \<lparr>ReaderCalls = 0, TotalBytesRead = 0, TotalTime = 0\<rparr>,
                  Write = \<lparr>WriterCalls = 0\<rparr>\<rparr>"

text \<open>The loop of \<open>Open\<close> over the options; a nil option is skipped.\<close>

fun store_applyOptions :: "Store \<Rightarrow> store_Option option list \<Rightarrow> error + Store" where
  "store_applyOptions s [] = Inr s"
| "store_applyOptions s (None # options) = store_applyOptions s options"
| "store_applyOptions s (Some apply # options) =
     (case apply s of
        Inl err \<Rightarrow> Inl (ErrorApplyingOption err)
      | Inr s' \<Rightarrow> store_applyOptions s' options)"

definition store_Open :: "world \<Rightarrow> string \<Rightarrow> store_Option option list \<Rightarrow> (error + Store) \<times> world" where
  "store_Open w d options =
     (if d = [] then (Inl DirIsEmpty, w)
      else case store_applyOptions
               \<lparr>failWhenMissingDir = False, areChecksumsEqual = default_areChecksumsEqual,
                dir = d, lastVersionTime = zeroTime, metrics = zeroMetrics\<rparr> options of
        Inl err \<Rightarrow> (Inl err, w)
      | Inr s \<Rightarrow>
          (case os_Lstat w d of
             Inl err \<Rightarrow>
               if IsNotExist err then
                 (if failWhenMissingDir s then (Inl (StoreDirDoesNotExist d), w)
                  else case os_MkdirAll w d of
                    (Some mkdirErr, w') \<Rightarrow> (Inl (MkdirFailed d mkdirErr), w')
                  | (None, w') \<Rightarrow> (Inr s, w'))
               else (Inl (LstatFailed d err), w)
           | Inr stat \<Rightarrow>
               if \<not> IsDir stat then (Inl (NotADirectory d), w) else (Inr s, w)))"

subsection \<open>Readers\<close>

text \<open>
  A \<open>hash.Hash\<close> is an object: a state with its \<open>Write\<close> and \<open>Sum\<close> methods. \<open>newHash\<close>, which
  creates the reader's hash, is not among the sources and is a parameter of \<open>openReader\<close>.
\<close>

record 'h hash_Hash =
  hstate :: 'h
  hWrite :: "'h \<Rightarrow> bytes \<Rightarrow> 'h"
  hSum :: "'h \<Rightarrow> bytes \<Rightarrow> bytes"

definition hash_Write :: "'h hash_Hash \<Rightarrow> bytes \<Rightarrow> 'h hash_Hash" where
  "hash_Write h p = h\<lparr>hstate := hWrite h (hstate h) p\<rparr>"

definition hash_Sum :: "'h hash_Hash \<Rightarrow> bytes \<Rightarrow> bytes" where
  "hash_Sum h b = hSum h (hstate h) b"

record ReaderOptions =
  chooseVersion :: "Version list \<Rightarrow> error + Version"

type_synonym ReaderOption = "ReaderOptions \<Rightarrow> error + ReaderOptions"

text \<open>
  The reader. Its \<open>metrics\<close> field points to the \<open>ReadMetrics\<close> of the store; the operations
  below take these metrics and return them updated.
\<close>

record 'h reader =
  reader_file :: os_File
  version :: Version
  checksum :: "'h hash_Hash"
  reader_areChecksumsEqual :: "bytes \<Rightarrow> bytes \<Rightarrow> bool"

text \<open>The loop of the selector that \<open>Time(t)\<close> installs.\<close>

fun Time_chooseVersion :: "time \<Rightarrow> Version list \<Rightarrow> error + Version" where
  "Time_chooseVersion t [] = Inl (VersionNotFoundError (VersionNotFound t))"
| "Time_chooseVersion t (v # versions) =
     (if Version_Time v = t then Inr v else Time_chooseVersion t versions)"

definition Time :: "time \<Rightarrow> ReaderOption" where
  "Time t o' = Inr (o'\<lparr>chooseVersion := Time_chooseVersion t\<rparr>)"

text \<open>The selector \<open>openReader\<close> starts with: \<open>versions[len(versions)-1]\<close>.\<close>

definition default_chooseVersion :: "Version list \<Rightarrow> error + Version" where
  "default_chooseVersion versions =
     (if versions = [] then Inl PanicIndexOutOfRange else Inr (last versions))"

fun reader_applyOptions :: "ReaderOptions \<Rightarrow> ReaderOption option list \<Rightarrow> error + ReaderOptions" where
  "reader_applyOptions opts [] = Inr opts"
| "reader_applyOptions opts (None # options) = reader_applyOptions opts options"
| "reader_applyOptions opts (Some apply # options) =
     (case apply opts of
        Inl err \<Rightarrow> Inl (ErrorApplyingOption err)
      | Inr opts' \<Rightarrow> reader_applyOptions opts' options)"

text \<open>
  \<open>Store.versions\<close> (the sorted list of the versions in the directory) and \<open>Store.dataFilename\<close>
  are not among the sources: they are the parameters \<open>versions\<close> and \<open>dataFilename\<close>.
\<close>

definition openReader ::
  "(Store \<Rightarrow> world \<Rightarrow> error + Version list) \<Rightarrow> (Store \<Rightarrow> time \<Rightarrow> string) \<Rightarrow> 'h hash_Hash \<Rightarrow>
   Store \<Rightarrow> world \<Rightarrow> ReaderOption option list \<Rightarrow> (bytes \<Rightarrow> bytes \<Rightarrow> bool) \<Rightarrow> error + 'h reader" where
  "openReader versions dataFilename newHash s w options areEqual =
     (case reader_applyOptions \<lparr>chooseVersion = default_chooseVersion\<rparr> options of
        Inl err \<Rightarrow> Inl err
      | Inr opts \<Rightarrow>
          (case versions s w of
             Inl err \<Rightarrow> Inl (ErrorReadingVersions (dir s) err)
           | Inr vs \<Rightarrow>
               if length vs = 0 then Inl (VersionNotFoundError NoVersionFound)
               else case chooseVersion opts vs of
                 Inl err \<Rightarrow> Inl err
               | Inr v \<Rightarrow>
                   (let name = dataFilename s (Version_Time v) in
                    case os_Open w name of
                      Inl err \<Rightarrow> Inl (ErrorOpeningFile name err)
                    | Inr f \<Rightarrow>
                        Inr \<lparr>reader_file = f, version = v, checksum = newHash,
                             reader_areChecksumsEqual = areEqual\<rparr>)))"

text \<open>\<open>Store.Reader\<close> counts the call, whatever \<open>openReader\<close> returns.\<close>

definition Store_Reader ::
  "(Store \<Rightarrow> world \<Rightarrow> error + Version list) \<Rightarrow> (Store \<Rightarrow> time \<Rightarrow> string) \<Rightarrow> 'h hash_Hash \<Rightarrow>
   Store \<Rightarrow> world \<Rightarrow> ReaderOption option list \<Rightarrow> (error + 'h reader) \<times> Store" where
  "Store_Reader versions dataFilename newHash s w options =
     (let s' = s\<lparr>metrics := (metrics s)\<lparr>Read := (Read (metrics s))
                 \<lparr>ReaderCalls := ReaderCalls (Read (metrics s)) + 1\<rparr>\<rparr>\<rparr>
      in (openReader versions dataFilename newHash s' w options (areChecksumsEqual s'), s'))"

text \<open>
  \<open>Store.Writer\<close> counts the call and hands over to \<open>openWriter\<close>, which is not among the sources:
  it is a parameter that works on the file system.
\<close>

definition Store_Writer ::
  "(Store \<Rightarrow> world \<Rightarrow> 'o list \<Rightarrow> (error + 'wr) \<times> world) \<Rightarrow>
   Store \<Rightarrow> world \<Rightarrow> 'o list \<Rightarrow> ((error + 'wr) \<times> world) \<times> Store" where
  "Store_Writer openWriter s w options =
     (let s' = s\<lparr>metrics := (metrics s)\<lparr>Write := (Write (metrics s))
                 \<lparr>WriterCalls := WriterCalls (Write (metrics s)) + 1\<rparr>\<rparr>\<rparr>
      in (openWriter s' w options, s'))"

definition Store_Versions ::
  "(Store \<Rightarrow> world \<Rightarrow> error + Version list) \<Rightarrow> Store \<Rightarrow> world \<Rightarrow> error + Version list" where
  "Store_Versions versions s w = versions s w"

definition Store_Metrics :: "Store \<Rightarrow> Metrics" where
  "Store_Metrics s = metrics s"

text \<open>
  \<open>checksumFileForDataFile\<close>, the name of the sidecar of a data file, is not among the sources:
  it is the parameter \<open>checksumFile\<close>.
\<close>

definition readChecksum :: "(string \<Rightarrow> string) \<Rightarrow> world \<Rightarrow> 'h reader \<Rightarrow> error + bytes" where
  "readChecksum checksumFile w r = ioutil_ReadFile w (checksumFile (Name (reader_file r)))"

definition validateChecksum :: "(string \<Rightarrow> string) \<Rightarrow> world \<Rightarrow> 'h reader \<Rightarrow> error option" where
  "validateChecksum checksumFile w r =
     (let actual = hash_Sum (checksum r) [] in
      case readChecksum checksumFile w r of
        Inl err \<Rightarrow> Some (ErrorReadingChecksum err)
      | Inr expected \<Rightarrow>
          if \<not> reader_areChecksumsEqual r expected actual
          then Some (InvalidChecksum (Name (reader_file r)))
          else None)"

text \<open>\<open>addElapsedTime\<close>, with \<open>d\<close> the duration that \<open>time.Since(start)\<close> returns.\<close>

definition addElapsedTime :: "ReadMetrics \<Rightarrow> Duration \<Rightarrow> ReadMetrics" where
  "addElapsedTime m d = m\<lparr>TotalTime := TotalTime m + d\<rparr>"

text \<open>
  \<open>reader.Read\<close> with a buffer of length \<open>k\<close>: the bytes delivered and the error, the reader and
  the metrics. The deferred \<open>addElapsedTime\<close> runs on every path; \<open>n\<close>, the number of bytes
  delivered, is added as an \<open>int\<close>.
\<close>

definition reader_Read ::
  "(string \<Rightarrow> string) \<Rightarrow> world \<Rightarrow> Duration \<Rightarrow> 'h reader \<times> ReadMetrics \<Rightarrow> nat \<Rightarrow>
   (bytes \<times> error option) \<times> 'h reader \<times> ReadMetrics" where
  "reader_Read checksumFile w d rm k =
     (case rm of (r, m) \<Rightarrow>
      (case file_Read w (reader_file r) k of (bs, err, f') \<Rightarrow>
       (let r1 = r\<lparr>reader_file := f'\<rparr> in
        case (if err = Some EOF then validateChecksum checksumFile w r1 else None) of
          Some err2 \<Rightarrow> ((bs, Some err2), r1, addElapsedTime m d)
        | None \<Rightarrow>
            ((bs, err), r1\<lparr>checksum := hash_Write (checksum r1) bs\<rparr>,
             addElapsedTime (m\<lparr>TotalBytesRead := TotalBytesRead m + of_nat (length bs)\<rparr>) d))))"

definition reader_Close ::
  "(string \<Rightarrow> string) \<Rightarrow> world \<Rightarrow> Duration \<Rightarrow> 'h reader \<times> ReadMetrics \<Rightarrow>
   error option \<times> 'h reader \<times> ReadMetrics" where
  "reader_Close checksumFile w d rm =
     (case rm of (r, m) \<Rightarrow>
      (case file_Close w (reader_file r) of
         (Some err, f') \<Rightarrow> (Some (ErrorClosingFile err), r\<lparr>reader_file := f'\<rparr>, addElapsedTime m d)
       | (None, f') \<Rightarrow>
           (validateChecksum checksumFile w (r\<lparr>reader_file := f'\<rparr>), r\<lparr>reader_file := f'\<rparr>,
            addElapsedTime m d)))"

definition reader_Version :: "'h reader \<Rightarrow> Version" where
  "reader_Version r = version r"

subsection \<open>DeleteVersion\<close>

text \<open>The loop of \<open>DeleteVersion\<close> over the data file and its sidecar.\<close>

fun DeleteVersion_loop :: "time \<Rightarrow> world \<Rightarrow> string list \<Rightarrow> error option \<times> world" where
  "DeleteVersion_loop t w [] = (None, w)"
| "DeleteVersion_loop t w (f # files) =
     (case os_Remove w f of
        (Some err, w') \<Rightarrow>
          if IsNotExist err then (Some (VersionNotFoundError (VersionDoesNotExist t)), w')
          else (Some (ErrorRemovingFile f err), w')
      | (None, w') \<Rightarrow> DeleteVersion_loop t w' files)"

definition DeleteVersion ::
  "(Store \<Rightarrow> time \<Rightarrow> string) \<Rightarrow> (string \<Rightarrow> string) \<Rightarrow> Store \<Rightarrow> world \<Rightarrow> time \<Rightarrow> error option \<times> world" where
  "DeleteVersion dataFilename checksumFile s w t =
     (let dataFile = dataFilename s t;
          checksumFile' = checksumFile dataFile
      in DeleteVersion_loop t w [dataFile, checksumFile'])"

subsection \<open>A store in use\<close>

text \<open>
  The operations on one store, its file system and the readers it has opened. A reader is
  addressed by its position in the list of open readers; \<open>Read\<close> and \<open>Close\<close> carry the
  duration that \<open>time.Since\<close> returns for the call.
\<close>

record 'h system =
  sys_store :: Store
  sys_world :: world
  sys_readers :: "'h reader list"

datatype 'o operation =
    OpWriter "'o list"
  | OpReader "ReaderOption option list"
  | OpRead nat nat Duration
  | OpClose nat Duration

fun step ::
  "(Store \<Rightarrow> world \<Rightarrow> error + Version list) \<Rightarrow> (Store \<Rightarrow> time \<Rightarrow> string) \<Rightarrow> 'h hash_Hash \<Rightarrow>
   (string \<Rightarrow> string) \<Rightarrow> (Store \<Rightarrow> world \<Rightarrow> 'o list \<Rightarrow> (error + 'wr) \<times> world) \<Rightarrow>
   'h system \<Rightarrow> 'o operation \<Rightarrow> 'h system" where
  "step versions dataFilename newHash checksumFile openWriter st (OpWriter options) =
     (case Store_Writer openWriter (sys_store st) (sys_world st) options of
        ((res, w'), s') \<Rightarrow> st\<lparr>sys_store := s', sys_world := w'\<rparr>)"
| "step versions dataFilename newHash checksumFile openWriter st (OpReader options) =
     (case Store_Reader versions dataFilename newHash (sys_store st) (sys_world st) options of
        (Inl err, s') \<Rightarrow> st\<lparr>sys_store := s'\<rparr>
      | (Inr r, s') \<Rightarrow> st\<lparr>sys_store := s', sys_readers := sys_readers st @ [r]\<rparr>)"
| "step versions dataFilename newHash checksumFile openWriter st (OpRead i k d) =
     (if i < length (sys_readers st) then
        (case reader_Read checksumFile (sys_world st) d
                (sys_readers st ! i, Read (metrics (sys_store st))) k of
           (res, r', m') \<Rightarrow>
             st\<lparr>sys_store := (sys_store st)\<lparr>metrics := (metrics (sys_store st))\<lparr>Read := m'\<rparr>\<rparr>,
                sys_readers := (sys_readers st)[i := r']\<rparr>)
      else st)"
| "step versions dataFilename newHash checksumFile openWriter st (OpClose i d) =
     (if i < length (sys_readers st) then
        (case reader_Close checksumFile (sys_world st) d
                (sys_readers st ! i, Read (metrics (sys_store st))) of
           (res, r', m') \<Rightarrow>
             st\<lparr>sys_store := (sys_store st)\<lparr>metrics := (metrics (sys_store st))\<lparr>Read := m'\<rparr>\<rparr>,
                sys_readers := (sys_readers st)[i := r']\<rparr>)
      else st)"

definition run ::
  "(Store \<Rightarrow> world \<Rightarrow> error + Version list) \<Rightarrow> (Store \<Rightarrow> time \<Rightarrow> string) \<Rightarrow> 'h hash_Hash \<Rightarrow>
   (string \<Rightarrow> string) \<Rightarrow> (Store \<Rightarrow> world \<Rightarrow> 'o list \<Rightarrow> (error + 'wr) \<times> world) \<Rightarrow>
   'h system \<Rightarrow> 'o operation list \<Rightarrow> 'h system" where
  "run versions dataFilename newHash checksumFile openWriter st ops =
     foldl (step versions dataFilename newHash checksumFile openWriter) st ops"

text \<open>The four counters, read as signed numbers, do not decrease from \<open>m\<close> to \<open>m'\<close>.\<close>

definition metrics_le :: "Metrics \<Rightarrow> Metrics \<Rightarrow> bool" where
  "metrics_le m m' =
     (sint (WriterCalls (Write m)) \<le> sint (WriterCalls (Write m'))
      \<and> sint (ReaderCalls (Read m)) \<le> sint (ReaderCalls (Read m'))
      \<and> sint (TotalBytesRead (Read m)) \<le> sint (TotalBytesRead (Read m'))
      \<and> sint (TotalTime (Read m)) \<le> sint (TotalTime (Read m')))"

text \<open>
  Adding the amount \<open>a\<close> to the counter \<open>c\<close> does not wrap around: the amount is a number
  that is not negative, and the sum is below \<open>2^63\<close>.
\<close>

definition fits :: "64 word \<Rightarrow> int \<Rightarrow> bool" where
  "fits c a = (0 \<le> a \<and> a < 2 ^ 63 \<and> sint c + a < 2 ^ 63)"

text \<open>
  The additions of one operation fit: the count of a call, the bytes a \<open>Read\<close> delivers, and
  the duration measured for a \<open>Read\<close> or a \<open>Close\<close>.
\<close>

fun step_fits :: "(string \<Rightarrow> string) \<Rightarrow> 'h system \<Rightarrow> 'o operation \<Rightarrow> bool" where
  "step_fits checksumFile st (OpWriter options) =
     fits (WriterCalls (Write (metrics (sys_store st)))) 1"
| "step_fits checksumFile st (OpReader options) =
     fits (ReaderCalls (Read (metrics (sys_store st)))) 1"
| "step_fits checksumFile st (OpRead i k d) =
     (if i < length (sys_readers st) then
        (case reader_Read checksumFile (sys_world st) d
                (sys_readers st ! i, Read (metrics (sys_store st))) k of
           ((bs, err), r', m') \<Rightarrow>
             fits (TotalBytesRead (Read (metrics (sys_store st)))) (int (length bs))
             \<and> fits (TotalTime (Read (metrics (sys_store st)))) (sint d))
      else True)"
| "step_fits checksumFile st (OpClose i d) =
     (if i < length (sys_readers st)
      then fits (TotalTime (Read (metrics (sys_store st)))) (sint d)
      else True)"

text \<open>The additions of every operation of a sequence fit, each in the state it is run in.\<close>

fun run_fits ::
  "(Store \<Rightarrow> world \<Rightarrow> error + Version list) \<Rightarrow> (Store \<Rightarrow> time \<Rightarrow> string) \<Rightarrow> 'h hash_Hash \<Rightarrow>
   (string \<Rightarrow> string) \<Rightarrow> (Store \<Rightarrow> world \<Rightarrow> 'o list \<Rightarrow> (error + 'wr) \<times> world) \<Rightarrow>
   'h system \<Rightarrow> 'o operation list \<Rightarrow> bool" where
  "run_fits versions dataFilename newHash checksumFile openWriter st [] = True"
| "run_fits versions dataFilename newHash checksumFile openWriter st (op # ops) =
     (step_fits checksumFile st op
      \<and> run_fits versions dataFilename newHash checksumFile openWriter
           (step versions dataFilename newHash checksumFile openWriter st op) ops)"

section \<open>Package deebee\<close>

text \<open>
  \<open>Dir\<close> is an interface implemented outside the core: a directory is the results its methods
  return. A \<open>FileIntegrityChecker\<close> is a value of any type \<open>'c\<close>, and \<open>None\<close> the nil interface.
\<close>

record Dir =
  Exists :: "error + bool"
  ListFiles :: "error + string list"

record 'c DB =
  db_dir :: Dir
  fileIntegrityChecker :: "'c option"

type_synonym 'c deebee_Option = "'c DB \<Rightarrow> error + 'c DB"

definition setFileIntegrityChecker :: "'c DB \<Rightarrow> 'c option \<Rightarrow> error + 'c DB" where
  "setFileIntegrityChecker db checker =
     (if fileIntegrityChecker db \<noteq> None then Inl ConfiguredTwice
      else Inr (db\<lparr>fileIntegrityChecker := checker\<rparr>))"

definition IntegrityChecker :: "'c option \<Rightarrow> 'c deebee_Option" where
  "IntegrityChecker checker db = setFileIntegrityChecker db checker"

text \<open>
  \<open>ChecksumIntegrityChecker()\<close>, the option that installs the default checker, is not among the
  sources: it is a parameter.
\<close>

definition useDefaultFileIntegrityCheckerIfNotSet :: "'c deebee_Option \<Rightarrow> 'c DB \<Rightarrow> error + 'c DB" where
  "useDefaultFileIntegrityCheckerIfNotSet ChecksumIntegrityChecker db =
     (if fileIntegrityChecker db \<noteq> None then Inr db else ChecksumIntegrityChecker db)"

fun deebee_applyOptions :: "'c DB \<Rightarrow> 'c deebee_Option option list \<Rightarrow> error + 'c DB" where
  "deebee_applyOptions db [] = Inr db"
| "deebee_applyOptions db (None # options) = deebee_applyOptions db options"
| "deebee_applyOptions db (Some apply # options) =
     (case apply db of
        Inl err \<Rightarrow> Inl (ApplyingOptionFailed err)
      | Inr db' \<Rightarrow> deebee_applyOptions db' options)"

definition deebee_Open ::
  "'c deebee_Option \<Rightarrow> Dir option \<Rightarrow> 'c deebee_Option option list \<Rightarrow> error + 'c DB" where
  "deebee_Open ChecksumIntegrityChecker d options =
     (case d of
        None \<Rightarrow> Inl NilDir
      | Some dir' \<Rightarrow>
          (case Exists dir' of
             Inl err \<Rightarrow> Inl err
           | Inr dirExists \<Rightarrow>
               if \<not> dirExists then Inl DatabaseDirNotFound
               else case deebee_applyOptions \<lparr>db_dir = dir', fileIntegrityChecker = None\<rparr> options of
                 Inl err \<Rightarrow> Inl err
               | Inr db \<Rightarrow> useDefaultFileIntegrityCheckerIfNotSet ChecksumIntegrityChecker db))"

text \<open>
  \<open>filterDatafiles\<close>, \<open>youngestFilename\<close>, \<open>generateFilename\<close> and the type \<open>filename\<close> are not among
  the sources. They are arguments of \<open>nextVersionFilename\<close>; of a \<open>filename\<close> the code reads the
  field \<open>version\<close>, a number of any type with \<open>+\<close> and \<open>1\<close>. \<open>youngestFilename\<close> returns no file
  name when none exists.
\<close>

record 'v filename =
  filename_version :: 'v

definition nextVersionFilename ::
  "(string list \<Rightarrow> 'fs) \<Rightarrow> ('fs \<Rightarrow> ('v::{one,plus}) filename option) \<Rightarrow> ('v \<Rightarrow> string) \<Rightarrow>
   Dir \<Rightarrow> error + string" where
  "nextVersionFilename filterDatafiles youngestFilename generateFilename stateDir =
     (case ListFiles stateDir of
        Inl err \<Rightarrow> Inl err
      | Inr files \<Rightarrow>
          (case youngestFilename (filterDatafiles files) of
             None \<Rightarrow> Inr ''0''
           | Some filename \<Rightarrow> Inr (generateFilename (filename_version filename + 1))))"

text \<open>Modelled from the spec: \<open>filterDatafiles\<close>, which is not among the sources. A discovered
  file name is parsed back into a version, and what does not match (a sidecar, an incidental
  entry of the directory) is filtered out, not mis-parsed: the data files are the listed
  names that \<open>parseVersion\<close> reads as a version. How a version is written as a name, and read
  back, stays a parameter.
\<close>

definition filterDatafiles :: "(string \<Rightarrow> 'v option) \<Rightarrow> string list \<Rightarrow> 'v filename list" where
  "filterDatafiles parseVersion files =
     List.map_filter (\<lambda>name. map_option (\<lambda>v. \<lparr>filename_version = v\<rparr>) (parseVersion name)) files"

text \<open>Modelled from the spec: \<open>youngestFilename\<close>, which is not among the sources. Versions are
  ordered chronologically by their names, and a new version is named immediately after the
  latest: the youngest data file is the one of the greatest version, and there is none when
  there is no data file.
\<close>

definition youngestFilename :: "('v::linorder) filename list \<Rightarrow> 'v filename option" where
  "youngestFilename names =
     (case names of
        [] \<Rightarrow> None
      | f # fs \<Rightarrow>
          Some (foldl (\<lambda>y g. if filename_version y < filename_version g then g else y) f fs))"

section \<open>Concrete instances\<close>

text \<open>
  Instances of the parameters and a small file system, on which the definitions are evaluated:
  the FNV-128a hash as the reader's hash, decimal file names, a sidecar named after the
  algorithm, and a store directory \<open>db\<close> with the versions 1 and 2, of which the data file of
  version 1 has no sidecar and that of version 2 the sidecar given.
\<close>

definition fnv128a_Hash :: "sum128a hash_Hash" where
  "fnv128a_Hash = \<lparr>hstate = New128a, hWrite = sum128a_Write, hSum = sum128a_Sum\<rparr>"

text \<open>The decimal form of a number, as \<open>strconv.Itoa\<close> writes it.\<close>

fun decimal :: "nat \<Rightarrow> string" where
  "decimal n = (if n < 10 then [hexdigit n] else decimal (n div 10) @ [hexdigit (n mod 10)])"

declare decimal.simps [simp del]

definition example_dataFilename :: "Store \<Rightarrow> time \<Rightarrow> string" where
  "example_dataFilename s t = dir s @ ''/'' @ decimal (nat t)"

definition example_checksumFile :: "string \<Rightarrow> string" where
  "example_checksumFile dataFile = dataFile @ ''.fnv128a''"

definition example_versions :: "Store \<Rightarrow> world \<Rightarrow> error + Version list" where
  "example_versions s w =
     Inr [\<lparr>Version_Time = 1, Version_Size = 3\<rparr>, \<lparr>Version_Time = 2, Version_Size = 4\<rparr>]"

definition example_world :: "bytes \<Rightarrow> world" where
  "example_world sidecar =
     \<lparr>nodes = [''db'' \<mapsto> Directory,
               ''db/1'' \<mapsto> RegularFile (bytes_of ''old''),
               ''db/2'' \<mapsto> RegularFile (bytes_of ''data''),
               ''db/2.fnv128a'' \<mapsto> RegularFile sidecar],
      faults = (\<lambda>call p. None)\<rparr>"

text \<open>The store as \<open>Open\<close> with no option creates it.\<close>

definition example_store :: Store where
  "example_store = \<lparr>failWhenMissingDir = False, areChecksumsEqual = default_areChecksumsEqual,
     dir = ''db'', lastVersionTime = zeroTime, metrics = zeroMetrics\<rparr>"

text \<open>The reader of version 2 at position \<open>pos\<close> that has hashed the bytes \<open>hashed\<close>.\<close>

definition example_reader :: "nat \<Rightarrow> bytes \<Rightarrow> sum128a reader" where
  "example_reader pos hashed =
     \<lparr>reader_file = \<lparr>Name = ''db/2'', content = bytes_of ''data'', offset = pos, isdir = False,
                      closed = False\<rparr>,
      version = \<lparr>Version_Time = 2, Version_Size = 4\<rparr>,
      checksum = hash_Write fnv128a_Hash hashed,
      reader_areChecksumsEqual = default_areChecksumsEqual\<rparr>"

text \<open>The FNV-128a digest of \<open>data\<close> with the lowest bit of its first byte flipped.\<close>

definition example_corrupt_sidecar :: bytes where
  "example_corrupt_sidecar =
     [0x68, 0x5b, 0x59, 0x8c, 0x64, 0x75, 0x72, 0x77, 0xb8, 0x06, 0xe9, 0x70, 0x4d, 0x5d, 0x6a, 0x5d]"

text \<open>
  A file system in which the store directory does not exist.
\<close>

definition example_empty_world :: world where
  "example_empty_world = \<lparr>nodes = Map.empty, faults = (\<lambda>call p. None)\<rparr>"

text \<open>
  An existing database directory, and an instance of the default option: it sets a checker
  of its own.
\<close>

definition example_dir :: Dir where
  "example_dir = \<lparr>Exists = Inr True, ListFiles = Inr []\<rparr>"

definition example_ChecksumIntegrityChecker :: "nat deebee_Option" where
  "example_ChecksumIntegrityChecker = IntegrityChecker (Some 0)"

text \<open>
  The FNV-128a digest of \<open>data\<close>: the sidecar that matches version 2.
\<close>

definition example_digest :: bytes where
  "example_digest =
     [0x69, 0x5b, 0x59, 0x8c, 0x64, 0x75, 0x72, 0x77, 0xb8, 0x06, 0xe9, 0x70, 0x4d, 0x5d, 0x6a, 0x5d]"

text \<open>
  An instance of \<open>openWriter\<close>, a store in use with no reader yet, and one whose count of bytes
  read is three below the greatest \<open>int\<close>, with the reader of version 2 open at its start.
\<close>

definition example_openWriter :: "Store \<Rightarrow> world \<Rightarrow> unit list \<Rightarrow> (error + unit) \<times> world" where
  "example_openWriter s w options = (Inr (), w)"

definition example_system :: "sum128a system" where
  "example_system =
     \<lparr>sys_store = example_store, sys_world = example_world example_digest, sys_readers = []\<rparr>"

definition example_full_system :: "sum128a system" where
  "example_full_system =
     \<lparr>sys_store = example_store\<lparr>metrics :=
        \<lparr>Read = \<lparr>ReaderCalls = 1, TotalBytesRead = 0x7FFFFFFFFFFFFFFD, TotalTime = 0\<rparr>,
         Write = \<lparr>WriterCalls = 0\<rparr>\<rparr>\<rparr>,
      sys_world = example_world example_digest,
      sys_readers = [example_reader 0 []]\<rparr>"

text \<open>
  An instance of the serialisation of versions, for evaluation: a version is an integer, its
  name the decimal form, and the names read back are the ones made of digits.
\<close>

definition example_parseVersion :: "string \<Rightarrow> int option" where
  "example_parseVersion name =
     (if name \<noteq> [] \<and> list_all (\<lambda>c. c \<in> set ''0123456789'') name
      then Some (foldl (\<lambda>n c. 10 * n + (of_char c - 48)) 0 name) else None)"

definition example_generateFilename :: "int \<Rightarrow> string" where
  "example_generateFilename v = decimal (nat v)"

definition example_stateDir :: "string list \<Rightarrow> Dir" where
  "example_stateDir files = \<lparr>Exists = Inr True, ListFiles = Inr files\<rparr>"

section \<open>Theorems\<close>

subsection \<open>FNV-128a\<close>

lemma sum128a_Write_append:
  "sum128a_Write (sum128a_Write s a) b = sum128a_Write s (a @ b)"
  by (simp add: sum128a_Write_def)

lemma hashSum_Write_twice:
  "hashSum_Marshal (hashSum_Write (hashSum_Write s a) b) = hashSum_Marshal (hashSum_Write s (a @ b))"
  by (simp add: hashSum_Write_def sum128a_Write_append)

text \<open>
  Claim C3. A fresh FNV-128a sum updated with the bytes "data" marshals to the digest whose
  hexadecimal form is 695b598c64757277b806e9704d5d6a5d, and updating a fresh sum with "da" and
  then with "ta" marshals to the same digest.
\<close>

theorem fnv128a_data_digest:
  "sprintf_x (hashSum_Marshal (hashSum_Write FNV128a_NewSum (bytes_of ''data'')))
     = ''695b598c64757277b806e9704d5d6a5d''
   \<and> hashSum_Marshal (hashSum_Write (hashSum_Write FNV128a_NewSum (bytes_of ''da'')) (bytes_of ''ta''))
     = hashSum_Marshal (hashSum_Write FNV128a_NewSum (bytes_of ''data''))"
proof
  show "sprintf_x (hashSum_Marshal (hashSum_Write FNV128a_NewSum (bytes_of ''data'')))
     = ''695b598c64757277b806e9704d5d6a5d''"
    by code_simp
next
  have "bytes_of ''da'' @ bytes_of ''ta'' = bytes_of ''data''"
    by (simp add: bytes_of_def)
  then show "hashSum_Marshal (hashSum_Write (hashSum_Write FNV128a_NewSum (bytes_of ''da'')) (bytes_of ''ta''))
     = hashSum_Marshal (hashSum_Write FNV128a_NewSum (bytes_of ''data''))"
    by (simp only: hashSum_Write_twice)
qed

subsection \<open>Package store: verification while reading\<close>

lemma ex_open: "store_Open (example_world sc) ''db'' [] = (Inr example_store, example_world sc)"
  by (simp add: store_Open_def example_world_def example_store_def os_Lstat_def IsDir_def)

lemma hash_Write_Nil_fnv: "hash_Write fnv128a_Hash [] = fnv128a_Hash"
  by (simp add: hash_Write_def fnv128a_Hash_def sum128a_Write_def)

lemma ex_dataFilename_2: "example_dataFilename example_store 2 = ''db/2''"
  by code_simp

lemma ex_reader: "fst (Store_Reader example_versions example_dataFilename fnv128a_Hash example_store
     (example_world sc) []) = Inr (example_reader 0 [])"
proof -
  let ?s = "example_store\<lparr>metrics := (metrics example_store)\<lparr>Read := (Read (metrics example_store))
                 \<lparr>ReaderCalls := ReaderCalls (Read (metrics example_store)) + 1\<rparr>\<rparr>\<rparr>"
  have "example_dataFilename ?s 2 = ''db/2''"
    using ex_dataFilename_2 by (simp add: example_dataFilename_def)
  then show ?thesis
    by (simp add: Store_Reader_def openReader_def example_versions_def Let_def
       default_chooseVersion_def os_Open_def example_world_def example_reader_def
       hash_Write_Nil_fnv example_store_def)
qed

lemma ex_read: "reader_Read example_checksumFile (example_world sc) d (example_reader 0 [], m) 16
   = ((bytes_of ''data'', None), example_reader 4 (bytes_of ''data''),
        addElapsedTime (m\<lparr>TotalBytesRead := TotalBytesRead m + 4\<rparr>) d)"
  by (simp add: reader_Read_def file_Read_def example_reader_def example_world_def Let_def
      bytes_of_def hash_Write_Nil_fnv)

lemma default_areChecksumsEqual_iff:
  "default_areChecksumsEqual expected actual \<longleftrightarrow>
     expected = actual \<or> expected \<in> {bytes_of ''ALTERED'', bytes_of (''ALTERED'' @ [CHR 0x0A]),
        bytes_of (''ALTERED'' @ [CHR 0x0D, CHR 0x0A])}"
  by (auto simp: default_areChecksumsEqual_def)

lemma file_Read_EOF:
  "file_Read w f k = (bs, Some EOF, f') \<Longrightarrow> bs = [] \<and> f' = f"
  by (auto simp: file_Read_def Let_def split: if_splits option.splits)

lemma file_Close_Name:
  "file_Close w f = (e, f') \<Longrightarrow> Name f' = Name f"
  by (auto simp: file_Close_def split: if_splits option.splits)

lemma validateChecksum_cong:
  "Name (reader_file r') = Name (reader_file r) \<Longrightarrow> checksum r' = checksum r \<Longrightarrow>
   reader_areChecksumsEqual r' = reader_areChecksumsEqual r \<Longrightarrow>
   validateChecksum cf w r' = validateChecksum cf w r"
  by (simp add: validateChecksum_def readChecksum_def split: sum.split)

lemma validateChecksum_Inr:
  "readChecksum cf w r = Inr expected \<Longrightarrow>
   validateChecksum cf w r =
     (if \<not> reader_areChecksumsEqual r expected (hash_Sum (checksum r) [])
      then Some (InvalidChecksum (Name (reader_file r))) else None)"
  by (simp add: validateChecksum_def)

lemma reader_Read_EOF:
  assumes "file_Read w (reader_file r) k = (bs, Some EOF, f')"
  shows "reader_Read cf w d (r, m) k =
     (case validateChecksum cf w r of
        Some err2 \<Rightarrow> ((bs, Some err2), r, addElapsedTime m d)
      | None \<Rightarrow> ((bs, Some EOF), r\<lparr>checksum := hash_Write (checksum r) bs\<rparr>,
           addElapsedTime (m\<lparr>TotalBytesRead := TotalBytesRead m + of_nat (length bs)\<rparr>) d))"
proof -
  from assms have "f' = reader_file r" by (simp add: file_Read_EOF)
  then have "r\<lparr>reader_file := f'\<rparr> = r" by simp
  with assms show ?thesis by (simp add: reader_Read_def)
qed

lemma reader_Close_ok:
  assumes "file_Close w (reader_file r) = (None, f')"
  shows "fst (reader_Close cf w d (r, m)) = validateChecksum cf w r"
proof -
  from assms have "Name f' = Name (reader_file r)" by (rule file_Close_Name)
  then have "validateChecksum cf w (r\<lparr>reader_file := f'\<rparr>) = validateChecksum cf w r"
    by (intro validateChecksum_cong) simp_all
  with assms show ?thesis by (simp add: reader_Close_def)
qed

text \<open>
  Integrity verification is enabled when the store was opened without \<open>NoIntegrityCheck\<close>: its
  comparison is then the one \<open>Open\<close> installs, \<open>Store.Reader\<close> hands it to the reader, and
  \<open>Read\<close> keeps it.
\<close>

lemma store_applyOptions_keeps_comparison:
  assumes "set options \<subseteq> {None, Some FailWhenMissingDir}"
    and "store_applyOptions s options = Inr s'"
  shows "areChecksumsEqual s' = areChecksumsEqual s"
  using assms
proof (induction s options rule: store_applyOptions.induct)
  case (1 s)
  then show ?case by simp
next
  case (2 s options)
  then show ?case by simp
next
  case (3 s opt options)
  then have opt: "opt s = Inr (s\<lparr>failWhenMissingDir := True\<rparr>)"
    by (simp add: FailWhenMissingDir_def)
  with "3.prems" have "store_applyOptions (s\<lparr>failWhenMissingDir := True\<rparr>) options = Inr s'"
    by simp
  with "3.IH" [OF opt] "3.prems" show ?case by simp
qed

lemma store_Open_verification_enabled:
  assumes "set options \<subseteq> {None, Some FailWhenMissingDir}"
    and "store_Open w d options = (Inr s, w')"
  shows "areChecksumsEqual s = default_areChecksumsEqual"
proof -
  let ?s0 = "\<lparr>failWhenMissingDir = False, areChecksumsEqual = default_areChecksumsEqual,
                dir = d, lastVersionTime = zeroTime, metrics = zeroMetrics\<rparr>"
  from assms(2) have "store_applyOptions ?s0 options = Inr s"
    by (auto simp: store_Open_def split: if_splits sum.splits prod.splits option.splits)
  from store_applyOptions_keeps_comparison [OF assms(1) this] show ?thesis by simp
qed

lemma Store_Reader_comparison:
  "fst (Store_Reader versions dataFilename newHash s w options) = Inr r \<Longrightarrow>
   reader_areChecksumsEqual r = areChecksumsEqual s"
  by (auto simp: Store_Reader_def openReader_def Let_def split: sum.splits if_splits)

lemma reader_Read_comparison:
  "reader_Read checksumFile w d (r, m) k = (res, r', m') \<Longrightarrow>
   reader_areChecksumsEqual r' = reader_areChecksumsEqual r"
  by (auto simp: reader_Read_def Let_def split: prod.splits option.splits)

text \<open>
  Claim C1, as amended. A reader that compares with the comparison \<open>Open\<close> installs (integrity
  verification enabled) reports the verification error \<open>invalid checksum\<close> whenever the bytes of
  the sidecar differ from the recomputed digest and the sidecar is not the word \<open>ALTERED\<close>,
  alone or followed by a line feed or by a carriage return and a line feed:
  \<open>validateChecksum\<close> returns it, \<open>Read\<close> returns it at end-of-stream, and \<open>Close\<close> returns it
  once the file is closed.
\<close>

theorem verification_error_unless_altered:
  assumes enabled: "reader_areChecksumsEqual r = default_areChecksumsEqual"
    and sidecar: "readChecksum checksumFile w r = Inr expected"
    and differ: "expected \<noteq> hash_Sum (checksum r) []"
    and not_altered: "expected \<notin> {bytes_of ''ALTERED'', bytes_of (''ALTERED'' @ [CHR 0x0A]),
        bytes_of (''ALTERED'' @ [CHR 0x0D, CHR 0x0A])}"
  shows "validateChecksum checksumFile w r = Some (InvalidChecksum (Name (reader_file r)))
     \<and> (\<forall>k bs f' d m. file_Read w (reader_file r) k = (bs, Some EOF, f') \<longrightarrow>
          fst (reader_Read checksumFile w d (r, m) k)
            = (bs, Some (InvalidChecksum (Name (reader_file r)))))
     \<and> (\<forall>f' d m. file_Close w (reader_file r) = (None, f') \<longrightarrow>
          fst (reader_Close checksumFile w d (r, m))
            = Some (InvalidChecksum (Name (reader_file r))))"
proof -
  from differ not_altered
  have "\<not> default_areChecksumsEqual expected (hash_Sum (checksum r) [])"
    by (simp add: default_areChecksumsEqual_iff)
  with enabled
  have v: "validateChecksum checksumFile w r = Some (InvalidChecksum (Name (reader_file r)))"
    by (simp add: validateChecksum_Inr [OF sidecar])
  show ?thesis
  proof (intro conjI allI impI)
    show "validateChecksum checksumFile w r = Some (InvalidChecksum (Name (reader_file r)))"
      by (rule v)
  next
    fix k bs f' d m
    assume "file_Read w (reader_file r) k = (bs, Some EOF, f')"
    then show "fst (reader_Read checksumFile w d (r, m) k)
        = (bs, Some (InvalidChecksum (Name (reader_file r))))"
      by (simp add: reader_Read_EOF v)
  next
    fix f' d m
    assume "file_Close w (reader_file r) = (None, f')"
    then show "fst (reader_Close checksumFile w d (r, m))
        = Some (InvalidChecksum (Name (reader_file r)))"
      by (simp add: reader_Close_ok v)
  qed
qed

lemma ex_readChecksum:
  "readChecksum example_checksumFile (example_world sc) (example_reader pos hashed) = Inr sc"
  by (simp add: readChecksum_def example_checksumFile_def example_world_def example_reader_def
      ioutil_ReadFile_def)

lemma ex_digest:
  "hash_Sum (checksum (example_reader pos (bytes_of ''data''))) []
     = [0x69, 0x5b, 0x59, 0x8c, 0x64, 0x75, 0x72, 0x77, 0xb8, 0x06, 0xe9, 0x70, 0x4d, 0x5d, 0x6a, 0x5d]"
  by code_simp

lemma ex_corrupt_differs:
  "example_corrupt_sidecar \<noteq> hash_Sum (checksum (example_reader pos (bytes_of ''data''))) []"
  unfolding ex_digest by (simp add: example_corrupt_sidecar_def)

lemma ex_corrupt_not_altered:
  "example_corrupt_sidecar \<notin> {bytes_of ''ALTERED'', bytes_of (''ALTERED'' @ [CHR 0x0A]),
        bytes_of (''ALTERED'' @ [CHR 0x0D, CHR 0x0A])}"
  by (simp add: example_corrupt_sidecar_def bytes_of_def)

lemma ex_file_Read_end:
  "file_Read (example_world sc) (reader_file (example_reader 4 hashed)) 16
     = ([], Some EOF, reader_file (example_reader 4 hashed))"
  by (simp add: file_Read_def example_world_def example_reader_def bytes_of_def)

lemma ex_file_Close:
  "file_Close (example_world sc) (reader_file (example_reader pos hashed))
     = (None, (reader_file (example_reader pos hashed))\<lparr>closed := True\<rparr>)"
  by (simp add: file_Close_def example_world_def example_reader_def)

text \<open>The sidecar of version 2 with its first byte flipped.\<close>

theorem verification_error_unless_altered_witness:
  "reader_areChecksumsEqual (example_reader 4 (bytes_of ''data'')) = default_areChecksumsEqual
   \<and> readChecksum example_checksumFile (example_world example_corrupt_sidecar)
        (example_reader 4 (bytes_of ''data'')) = Inr example_corrupt_sidecar
   \<and> example_corrupt_sidecar \<noteq> hash_Sum (checksum (example_reader 4 (bytes_of ''data''))) []
   \<and> validateChecksum example_checksumFile (example_world example_corrupt_sidecar)
        (example_reader 4 (bytes_of ''data'')) = Some (InvalidChecksum ''db/2'')
   \<and> fst (reader_Read example_checksumFile (example_world example_corrupt_sidecar) 0
        (example_reader 4 (bytes_of ''data''), Read zeroMetrics) 16)
        = ([], Some (InvalidChecksum ''db/2''))
   \<and> fst (reader_Close example_checksumFile (example_world example_corrupt_sidecar) 0
        (example_reader 4 (bytes_of ''data''), Read zeroMetrics))
        = Some (InvalidChecksum ''db/2'')"
proof -
  let ?r = "example_reader 4 (bytes_of ''data'')"
  let ?w = "example_world example_corrupt_sidecar"
  have 1: "reader_areChecksumsEqual ?r = default_areChecksumsEqual"
    by (simp add: example_reader_def)
  have 2: "readChecksum example_checksumFile ?w ?r = Inr example_corrupt_sidecar"
    by (rule ex_readChecksum)
  have 3: "example_corrupt_sidecar \<noteq> hash_Sum (checksum ?r) []"
    by (rule ex_corrupt_differs)
  have 4: "example_corrupt_sidecar \<notin> {bytes_of ''ALTERED'', bytes_of (''ALTERED'' @ [CHR 0x0A]),
        bytes_of (''ALTERED'' @ [CHR 0x0D, CHR 0x0A])}"
    by (rule ex_corrupt_not_altered)
  have n: "Name (reader_file ?r) = ''db/2''"
    by (simp add: example_reader_def)
  note t = verification_error_unless_altered [OF 1 2 3 4, unfolded n]
  from t ex_file_Read_end [of example_corrupt_sidecar "bytes_of ''data''"]
  have 5: "fst (reader_Read example_checksumFile ?w 0 (?r, Read zeroMetrics) 16)
        = ([], Some (InvalidChecksum ''db/2''))"
    by blast
  from t ex_file_Close [of example_corrupt_sidecar 4 "bytes_of ''data''"]
  have 6: "fst (reader_Close example_checksumFile ?w 0 (?r, Read zeroMetrics))
        = Some (InvalidChecksum ''db/2'')"
    by blast
  from 1 2 3 t 5 6 show ?thesis by blast
qed

text \<open>
  Claim C1 as stated fails: the store is opened with no option, the reader delivers \<open>data\<close>,
  the sidecar holds the seven bytes \<open>ALTERED\<close>, which differ from the sixteen bytes of the
  digest, and yet \<open>Read\<close> reports end-of-stream and \<open>Close\<close> no error.
\<close>

theorem altered_sidecar_counterexample:
  "store_Open (example_world (bytes_of ''ALTERED'')) ''db'' []
     = (Inr example_store, example_world (bytes_of ''ALTERED''))
   \<and> fst (Store_Reader example_versions example_dataFilename fnv128a_Hash example_store
        (example_world (bytes_of ''ALTERED'')) []) = Inr (example_reader 0 [])
   \<and> reader_Read example_checksumFile (example_world (bytes_of ''ALTERED'')) 0
        (example_reader 0 [], Read zeroMetrics) 16
       = ((bytes_of ''data'', None), example_reader 4 (bytes_of ''data''),
          addElapsedTime ((Read zeroMetrics)\<lparr>TotalBytesRead := TotalBytesRead (Read zeroMetrics) + 4\<rparr>) 0)
   \<and> readChecksum example_checksumFile (example_world (bytes_of ''ALTERED''))
        (example_reader 4 (bytes_of ''data'')) = Inr (bytes_of ''ALTERED'')
   \<and> bytes_of ''ALTERED'' \<noteq> hash_Sum (checksum (example_reader 4 (bytes_of ''data''))) []
   \<and> fst (reader_Read example_checksumFile (example_world (bytes_of ''ALTERED'')) 0
        (example_reader 4 (bytes_of ''data''), Read zeroMetrics) 16) = ([], Some EOF)
   \<and> fst (reader_Close example_checksumFile (example_world (bytes_of ''ALTERED'')) 0
        (example_reader 4 (bytes_of ''data''), Read zeroMetrics)) = None"
proof -
  let ?r = "example_reader 4 (bytes_of ''data'')"
  let ?w = "example_world (bytes_of ''ALTERED'')"
  have "reader_areChecksumsEqual ?r = default_areChecksumsEqual"
    by (simp add: example_reader_def)
  then have v: "validateChecksum example_checksumFile ?w ?r = None"
    by (simp add: validateChecksum_Inr [OF ex_readChecksum] default_areChecksumsEqual_def)
  have 5: "bytes_of ''ALTERED'' \<noteq> hash_Sum (checksum ?r) []"
    unfolding ex_digest by (simp add: bytes_of_def)
  have 6: "fst (reader_Read example_checksumFile ?w 0 (?r, Read zeroMetrics) 16) = ([], Some EOF)"
    by (simp add: reader_Read_EOF [OF ex_file_Read_end] v)
  have 7: "fst (reader_Close example_checksumFile ?w 0 (?r, Read zeroMetrics)) = None"
    by (simp add: reader_Close_ok [OF ex_file_Close] v)
  show ?thesis
    using ex_open [of "bytes_of ''ALTERED''"] ex_reader [of "bytes_of ''ALTERED''"]
      ex_read [of "bytes_of ''ALTERED''" 0 "Read zeroMetrics"]
      ex_readChecksum [of "bytes_of ''ALTERED''" 4 "bytes_of ''data''"] 5 6 7
    by (simp only: simp_thms)
qed

subsection \<open>Package store: selecting the version to read\<close>

lemma reader_applyOptions_nil:
  "set options \<subseteq> {None} \<Longrightarrow> reader_applyOptions opts options = Inr opts"
  by (induction opts options rule: reader_applyOptions.induct) auto

lemma sorted_last_greatest:
  "sorted (map Version_Time vs) \<Longrightarrow> v \<in> set vs \<Longrightarrow> Version_Time v \<le> Version_Time (last vs)"
proof (induction vs)
  case Nil
  then show ?case by simp
next
  case (Cons a vs)
  then show ?case by (cases "vs = []") auto
qed

text \<open>
  Claim C4. When the version list is not empty and no option selects a version, \<open>openReader\<close>
  opens the data file of the last element of the list and returns a reader of that version (or
  the error of opening that file); in a list sorted by time, oldest first, no version is newer
  than the last one.
\<close>

theorem openReader_default_newest:
  assumes no_selector: "set options \<subseteq> {None}"
    and listed: "versions s w = Inr vs"
    and nonempty: "vs \<noteq> []"
  shows "openReader versions dataFilename newHash s w options areEqual =
       (case os_Open w (dataFilename s (Version_Time (last vs))) of
          Inl err \<Rightarrow> Inl (ErrorOpeningFile (dataFilename s (Version_Time (last vs))) err)
        | Inr f \<Rightarrow> Inr \<lparr>reader_file = f, version = last vs, checksum = newHash,
                         reader_areChecksumsEqual = areEqual\<rparr>)
     \<and> (sorted (map Version_Time vs) \<longrightarrow>
          (\<forall>v \<in> set vs. Version_Time v \<le> Version_Time (last vs)))"
proof
  from no_selector listed nonempty
  show "openReader versions dataFilename newHash s w options areEqual =
       (case os_Open w (dataFilename s (Version_Time (last vs))) of
          Inl err \<Rightarrow> Inl (ErrorOpeningFile (dataFilename s (Version_Time (last vs))) err)
        | Inr f \<Rightarrow> Inr \<lparr>reader_file = f, version = last vs, checksum = newHash,
                         reader_areChecksumsEqual = areEqual\<rparr>)"
    by (simp add: openReader_def reader_applyOptions_nil default_chooseVersion_def Let_def)
next
  show "sorted (map Version_Time vs) \<longrightarrow>
          (\<forall>v \<in> set vs. Version_Time v \<le> Version_Time (last vs))"
    by (simp add: sorted_last_greatest)
qed

lemma ex_os_Open_2:
  "os_Open (example_world sc) ''db/2'' = Inr (reader_file (example_reader 0 []))"
  by (simp add: os_Open_def example_world_def example_reader_def)

text \<open>
  In the store \<open>db\<close> with the versions 1 and 2, the reader opened with a nil option is the
  reader of version 2.
\<close>

theorem openReader_default_newest_witness:
  "set [None :: ReaderOption option] \<subseteq> {None}
   \<and> example_versions example_store (example_world example_corrupt_sidecar)
       = Inr [\<lparr>Version_Time = 1, Version_Size = 3\<rparr>, \<lparr>Version_Time = 2, Version_Size = 4\<rparr>]
   \<and> openReader example_versions example_dataFilename fnv128a_Hash example_store
        (example_world example_corrupt_sidecar) [None] default_areChecksumsEqual
       = Inr (example_reader 0 [])
   \<and> version (example_reader 0 []) = \<lparr>Version_Time = 2, Version_Size = 4\<rparr>"
proof -
  let ?vs = "[\<lparr>Version_Time = 1, Version_Size = 3\<rparr>, \<lparr>Version_Time = 2, Version_Size = 4\<rparr>]"
  have 1: "set [None :: ReaderOption option] \<subseteq> {None}" by simp
  have 2: "example_versions example_store (example_world example_corrupt_sidecar) = Inr ?vs"
    by (simp add: example_versions_def)
  have 3: "?vs \<noteq> []" by simp
  have l: "last ?vs = \<lparr>Version_Time = 2, Version_Size = 4\<rparr>" by simp
  have 4: "version (example_reader 0 []) = \<lparr>Version_Time = 2, Version_Size = 4\<rparr>"
    by (simp add: example_reader_def)
  from openReader_default_newest [where options = "[None]" and versions = example_versions
      and s = example_store and w = "example_world example_corrupt_sidecar" and vs = "?vs"
      and dataFilename = example_dataFilename and newHash = fnv128a_Hash
      and areEqual = default_areChecksumsEqual, OF 1 2 3]
  have "openReader example_versions example_dataFilename fnv128a_Hash example_store
        (example_world example_corrupt_sidecar) [None] default_areChecksumsEqual
       = Inr (example_reader 0 [])"
    unfolding l by (simp add: ex_dataFilename_2 ex_os_Open_2 example_reader_def hash_Write_Nil_fnv)
  with 1 2 4 show ?thesis by simp
qed

lemma Time_chooseVersion_found:
  "\<exists>v \<in> set vs. Version_Time v = t \<Longrightarrow>
   \<exists>v. Time_chooseVersion t vs = Inr v \<and> v \<in> set vs \<and> Version_Time v = t"
  by (induction vs) auto

lemma Time_chooseVersion_not_found:
  "\<forall>v \<in> set vs. Version_Time v \<noteq> t \<Longrightarrow>
   Time_chooseVersion t vs = Inl (VersionNotFoundError (VersionNotFound t))"
  by (induction vs) auto

lemma openReader_Time:
  assumes "versions s w = Inr vs"
  shows "openReader versions dataFilename newHash s w [Some (Time t)] areEqual =
     (if length vs = 0 then Inl (VersionNotFoundError NoVersionFound)
      else case Time_chooseVersion t vs of
        Inl err \<Rightarrow> Inl err
      | Inr v \<Rightarrow>
         (case os_Open w (dataFilename s (Version_Time v)) of
            Inl err \<Rightarrow> Inl (ErrorOpeningFile (dataFilename s (Version_Time v)) err)
          | Inr f \<Rightarrow> Inr \<lparr>reader_file = f, version = v, checksum = newHash,
                           reader_areChecksumsEqual = areEqual\<rparr>))"
  using assms by (simp add: openReader_def Time_def Let_def split: sum.split)

text \<open>
  Claim C5. With the selector \<open>Time(t)\<close> and a version list that could be read: if some
  version has exactly the time \<open>t\<close>, \<open>openReader\<close> opens the data file of \<open>t\<close> and returns a
  reader of a version with that time (or the error of opening that file); if no version has
  the time \<open>t\<close>, it returns a version-not-found error, whether other versions exist or not.
\<close>

theorem openReader_Time_exact:
  assumes listed: "versions s w = Inr vs"
  shows "((\<exists>v \<in> set vs. Version_Time v = t) \<longrightarrow>
          (\<exists>v. v \<in> set vs \<and> Version_Time v = t
             \<and> openReader versions dataFilename newHash s w [Some (Time t)] areEqual =
                 (case os_Open w (dataFilename s t) of
                    Inl err \<Rightarrow> Inl (ErrorOpeningFile (dataFilename s t) err)
                  | Inr f \<Rightarrow> Inr \<lparr>reader_file = f, version = v, checksum = newHash,
                                   reader_areChecksumsEqual = areEqual\<rparr>)))
     \<and> ((\<forall>v \<in> set vs. Version_Time v \<noteq> t) \<longrightarrow>
          (\<exists>msg. openReader versions dataFilename newHash s w [Some (Time t)] areEqual
             = Inl (VersionNotFoundError msg)))"
proof (intro conjI impI)
  assume ex: "\<exists>v \<in> set vs. Version_Time v = t"
  then obtain v where v: "Time_chooseVersion t vs = Inr v" "v \<in> set vs" "Version_Time v = t"
    using Time_chooseVersion_found by blast
  from ex have "vs \<noteq> []" by auto
  with v have "openReader versions dataFilename newHash s w [Some (Time t)] areEqual =
                 (case os_Open w (dataFilename s t) of
                    Inl err \<Rightarrow> Inl (ErrorOpeningFile (dataFilename s t) err)
                  | Inr f \<Rightarrow> Inr \<lparr>reader_file = f, version = v, checksum = newHash,
                                   reader_areChecksumsEqual = areEqual\<rparr>)"
    by (simp add: openReader_Time [where versions = versions, OF listed] split: sum.split)
  with v show "\<exists>v. v \<in> set vs \<and> Version_Time v = t
             \<and> openReader versions dataFilename newHash s w [Some (Time t)] areEqual =
                 (case os_Open w (dataFilename s t) of
                    Inl err \<Rightarrow> Inl (ErrorOpeningFile (dataFilename s t) err)
                  | Inr f \<Rightarrow> Inr \<lparr>reader_file = f, version = v, checksum = newHash,
                                   reader_areChecksumsEqual = areEqual\<rparr>)"
    by blast
next
  assume "\<forall>v \<in> set vs. Version_Time v \<noteq> t"
  then have "Time_chooseVersion t vs = Inl (VersionNotFoundError (VersionNotFound t))"
    by (rule Time_chooseVersion_not_found)
  then show "\<exists>msg. openReader versions dataFilename newHash s w [Some (Time t)] areEqual
             = Inl (VersionNotFoundError msg)"
    by (simp add: openReader_Time [where versions = versions, OF listed])
qed

lemma ex_dataFilename_1: "example_dataFilename example_store 1 = ''db/1''"
  by code_simp

lemma ex_os_Open_1:
  "os_Open (example_world sc) ''db/1''
     = Inr \<lparr>Name = ''db/1'', content = bytes_of ''old'', offset = 0, isdir = False, closed = False\<rparr>"
  by (simp add: os_Open_def example_world_def)

text \<open>
  In the store \<open>db\<close> with the versions 1 and 2: \<open>Time(1)\<close> selects the older version, and
  \<open>Time(3)\<close> finds none although two versions exist.
\<close>

theorem openReader_Time_exact_witness:
  "example_versions example_store (example_world example_corrupt_sidecar)
       = Inr [\<lparr>Version_Time = 1, Version_Size = 3\<rparr>, \<lparr>Version_Time = 2, Version_Size = 4\<rparr>]
   \<and> openReader example_versions example_dataFilename fnv128a_Hash example_store
        (example_world example_corrupt_sidecar) [Some (Time 1)] default_areChecksumsEqual
       = Inr \<lparr>reader_file = \<lparr>Name = ''db/1'', content = bytes_of ''old'', offset = 0,
                                isdir = False, closed = False\<rparr>,
               version = \<lparr>Version_Time = 1, Version_Size = 3\<rparr>, checksum = fnv128a_Hash,
               reader_areChecksumsEqual = default_areChecksumsEqual\<rparr>
   \<and> (\<exists>msg. openReader example_versions example_dataFilename fnv128a_Hash example_store
        (example_world example_corrupt_sidecar) [Some (Time 3)] default_areChecksumsEqual
       = Inl (VersionNotFoundError msg))"
proof -
  let ?vs = "[\<lparr>Version_Time = 1, Version_Size = 3\<rparr>, \<lparr>Version_Time = 2, Version_Size = 4\<rparr>]"
  let ?w = "example_world example_corrupt_sidecar"
  have 1: "example_versions example_store ?w = Inr ?vs"
    by (simp add: example_versions_def)
  note t = openReader_Time_exact [where versions = example_versions and s = example_store
      and w = ?w and vs = ?vs and dataFilename = example_dataFilename
      and newHash = fnv128a_Hash and areEqual = default_areChecksumsEqual, OF 1]
  have "\<exists>v \<in> set ?vs. Version_Time v = 1" by simp
  with t [of 1] obtain v where v: "v \<in> set ?vs" "Version_Time v = 1"
    and o: "openReader example_versions example_dataFilename fnv128a_Hash example_store ?w
        [Some (Time 1)] default_areChecksumsEqual =
       (case os_Open ?w (example_dataFilename example_store 1) of
          Inl err \<Rightarrow> Inl (ErrorOpeningFile (example_dataFilename example_store 1) err)
        | Inr f \<Rightarrow> Inr \<lparr>reader_file = f, version = v, checksum = fnv128a_Hash,
                         reader_areChecksumsEqual = default_areChecksumsEqual\<rparr>)"
    by blast
  from v have "v = \<lparr>Version_Time = 1, Version_Size = 3\<rparr>" by auto
  with o have 2: "openReader example_versions example_dataFilename fnv128a_Hash example_store ?w
        [Some (Time 1)] default_areChecksumsEqual
       = Inr \<lparr>reader_file = \<lparr>Name = ''db/1'', content = bytes_of ''old'', offset = 0,
                                isdir = False, closed = False\<rparr>,
               version = \<lparr>Version_Time = 1, Version_Size = 3\<rparr>, checksum = fnv128a_Hash,
               reader_areChecksumsEqual = default_areChecksumsEqual\<rparr>"
    by (simp add: ex_dataFilename_1 ex_os_Open_1)
  have "\<forall>v \<in> set ?vs. Version_Time v \<noteq> 3" by simp
  with t [of 3] have 3: "\<exists>msg. openReader example_versions example_dataFilename fnv128a_Hash
        example_store ?w [Some (Time 3)] default_areChecksumsEqual
       = Inl (VersionNotFoundError msg)"
    by blast
  from 1 2 3 show ?thesis by blast
qed

subsection \<open>Package store: Open and DeleteVersion\<close>

lemma FailWhenMissingDir_neq_NoIntegrityCheck: "FailWhenMissingDir \<noteq> NoIntegrityCheck"
proof
  assume "FailWhenMissingDir = NoIntegrityCheck"
  then have "FailWhenMissingDir example_store = NoIntegrityCheck example_store"
    by simp
  then have "failWhenMissingDir (example_store\<lparr>failWhenMissingDir := True\<rparr>)
      = failWhenMissingDir (example_store\<lparr>areChecksumsEqual := (\<lambda>expected actual. True)\<rparr>)"
    by (simp only: FailWhenMissingDir_def NoIntegrityCheck_def sum.inject)
  then show False
    by (simp add: example_store_def)
qed

lemma store_applyOptions_package:
  assumes "set options \<subseteq> {None, Some FailWhenMissingDir, Some NoIntegrityCheck}"
  shows "\<exists>s'. store_applyOptions s options = Inr s' \<and> dir s' = dir s
     \<and> (failWhenMissingDir s' \<longleftrightarrow> failWhenMissingDir s \<or> Some FailWhenMissingDir \<in> set options)"
  using assms
proof (induction s options rule: store_applyOptions.induct)
  case (1 s)
  then show ?case by simp
next
  case (2 s options)
  then show ?case by simp
next
  case (3 s opt options)
  from "3.prems" have a: "opt = FailWhenMissingDir \<or> opt = NoIntegrityCheck"
    and rest: "set options \<subseteq> {None, Some FailWhenMissingDir, Some NoIntegrityCheck}"
    by auto
  from a show ?case
  proof
    assume f: "opt = FailWhenMissingDir"
    then have ap: "opt s = Inr (s\<lparr>failWhenMissingDir := True\<rparr>)"
      by (simp add: FailWhenMissingDir_def)
    from "3.IH" [OF ap rest] ap f show ?thesis by auto
  next
    assume n: "opt = NoIntegrityCheck"
    then have ap: "opt s = Inr (s\<lparr>areChecksumsEqual := (\<lambda>expected actual. True)\<rparr>)"
      by (simp add: NoIntegrityCheck_def)
    from "3.IH" [OF ap rest] ap n FailWhenMissingDir_neq_NoIntegrityCheck show ?thesis by auto
  qed
qed

lemma os_MkdirAll_creates:
  "fst (os_MkdirAll w p) = None \<Longrightarrow> nodes (snd (os_MkdirAll w p)) p = Some Directory"
  by (auto simp: os_MkdirAll_def split: option.splits node.splits)

text \<open>
  Claim C8. The store directory does not exist (\<open>Lstat\<close> reports that), and the options are
  those of the package. With \<open>FailWhenMissingDir\<close> among them, \<open>Open\<close> fails and the file system
  is unchanged. Without it, for a directory path that is not empty and a \<open>MkdirAll\<close> that the
  operating system carries out, \<open>Open\<close> returns a store and the directory exists afterwards.
\<close>

theorem Open_missing_dir:
  assumes missing: "os_Lstat w d = Inl err" "IsNotExist err"
    and package: "set options \<subseteq> {None, Some FailWhenMissingDir, Some NoIntegrityCheck}"
  shows "(Some FailWhenMissingDir \<in> set options \<longrightarrow>
            store_Open w d options
              = (Inl (if d = [] then DirIsEmpty else StoreDirDoesNotExist d), w))
     \<and> (Some FailWhenMissingDir \<notin> set options \<and> d \<noteq> [] \<and> fst (os_MkdirAll w d) = None \<longrightarrow>
            (\<exists>s. store_Open w d options = (Inr s, snd (os_MkdirAll w d)) \<and> dir s = d)
            \<and> nodes (snd (os_MkdirAll w d)) d = Some Directory)"
proof -
  let ?s0 = "\<lparr>failWhenMissingDir = False, areChecksumsEqual = default_areChecksumsEqual,
                dir = d, lastVersionTime = zeroTime, metrics = zeroMetrics\<rparr>"
  from store_applyOptions_package [OF package, of ?s0]
  obtain s' where s': "store_applyOptions ?s0 options = Inr s'" "dir s' = d"
      "failWhenMissingDir s' \<longleftrightarrow> Some FailWhenMissingDir \<in> set options"
    by auto
  show ?thesis
  proof (intro conjI impI)
    assume "Some FailWhenMissingDir \<in> set options"
    with s' missing show "store_Open w d options
              = (Inl (if d = [] then DirIsEmpty else StoreDirDoesNotExist d), w)"
      by (simp add: store_Open_def)
  next
    assume a: "Some FailWhenMissingDir \<notin> set options \<and> d \<noteq> [] \<and> fst (os_MkdirAll w d) = None"
    with s' missing have "store_Open w d options = (Inr s', snd (os_MkdirAll w d))"
      by (cases "os_MkdirAll w d") (simp add: store_Open_def)
    with s' show "\<exists>s. store_Open w d options = (Inr s, snd (os_MkdirAll w d)) \<and> dir s = d"
      by blast
  next
    assume "Some FailWhenMissingDir \<notin> set options \<and> d \<noteq> [] \<and> fst (os_MkdirAll w d) = None"
    then show "nodes (snd (os_MkdirAll w d)) d = Some Directory"
      by (simp add: os_MkdirAll_creates)
  qed
qed

lemma ex_MkdirAll:
  "os_MkdirAll example_empty_world ''db''
     = (None, \<lparr>nodes = [''db'' \<mapsto> Directory], faults = (\<lambda>call p. None)\<rparr>)"
  by (simp add: os_MkdirAll_def example_empty_world_def)

text \<open>
  On the empty file system: \<open>Open\<close> with \<open>FailWhenMissingDir\<close> fails and leaves it empty,
  \<open>Open\<close> without it creates \<open>db\<close>.
\<close>

theorem Open_missing_dir_witness:
  "os_Lstat example_empty_world ''db'' = Inl (PathError ENOENT)
   \<and> IsNotExist (PathError ENOENT)
   \<and> store_Open example_empty_world ''db'' [Some NoIntegrityCheck, Some FailWhenMissingDir]
       = (Inl (StoreDirDoesNotExist ''db''), example_empty_world)
   \<and> (\<exists>s. store_Open example_empty_world ''db'' [None, Some NoIntegrityCheck]
         = (Inr s, \<lparr>nodes = [''db'' \<mapsto> Directory], faults = (\<lambda>call p. None)\<rparr>)
       \<and> dir s = ''db'')"
proof -
  have 1: "os_Lstat example_empty_world ''db'' = Inl (PathError ENOENT)"
    by (simp add: os_Lstat_def example_empty_world_def)
  have 2: "IsNotExist (PathError ENOENT)"
    by (simp add: IsNotExist_def)
  have 3: "set [Some NoIntegrityCheck, Some FailWhenMissingDir]
      \<subseteq> {None, Some FailWhenMissingDir, Some NoIntegrityCheck}"
    by simp
  have 4: "set [None, Some NoIntegrityCheck]
      \<subseteq> {None, Some FailWhenMissingDir, Some NoIntegrityCheck}"
    by simp
  have 5: "Some FailWhenMissingDir \<notin> set [None, Some NoIntegrityCheck]"
    using FailWhenMissingDir_neq_NoIntegrityCheck by simp
  from Open_missing_dir [OF 1 2 3]
  have a: "store_Open example_empty_world ''db'' [Some NoIntegrityCheck, Some FailWhenMissingDir]
       = (Inl (StoreDirDoesNotExist ''db''), example_empty_world)"
    by simp
  from Open_missing_dir [OF 1 2 4] 5
  have b: "\<exists>s. store_Open example_empty_world ''db'' [None, Some NoIntegrityCheck]
         = (Inr s, \<lparr>nodes = [''db'' \<mapsto> Directory], faults = (\<lambda>call p. None)\<rparr>)
       \<and> dir s = ''db''"
    by (simp add: ex_MkdirAll)
  from 1 2 a b show ?thesis by blast
qed

lemma os_Remove_existing:
  "faults w SysRemove p = None \<Longrightarrow> nodes w p = Some n \<Longrightarrow>
   os_Remove w p = (None, w\<lparr>nodes := (nodes w)(p := None)\<rparr>)"
  by (simp add: os_Remove_def)

lemma os_Remove_missing:
  "faults w SysRemove p = None \<Longrightarrow> nodes w p = None \<Longrightarrow>
   os_Remove w p = (Some (PathError ENOENT), w)"
  by (simp add: os_Remove_def)

text \<open>
  Claim C10. When the data file of \<open>t\<close> exists and can be removed and its sidecar does
  not exist, \<open>DeleteVersion\<close> returns the version-not-found error, and the file system it leaves
  is the one without the data file: the removal is not undone.
\<close>

theorem DeleteVersion_without_sidecar:
  assumes data: "nodes w (dataFilename s t) = Some n"
    and no_sidecar: "nodes w (checksumFile (dataFilename s t)) = None"
    and removable: "faults w SysRemove (dataFilename s t) = None"
    and no_fault: "faults w SysRemove (checksumFile (dataFilename s t)) = None"
  shows "DeleteVersion dataFilename checksumFile s w t
       = (Some (VersionNotFoundError (VersionDoesNotExist t)),
          w\<lparr>nodes := (nodes w)(dataFilename s t := None)\<rparr>)
     \<and> nodes (snd (DeleteVersion dataFilename checksumFile s w t)) (dataFilename s t) = None
     \<and> snd (DeleteVersion dataFilename checksumFile s w t) \<noteq> w"
proof -
  let ?df = "dataFilename s t"
  let ?w1 = "w\<lparr>nodes := (nodes w)(?df := None)\<rparr>"
  from data no_sidecar have neq: "checksumFile ?df \<noteq> ?df" by auto
  have r1: "os_Remove w ?df = (None, ?w1)"
    using removable data by (rule os_Remove_existing)
  have r2: "os_Remove ?w1 (checksumFile ?df) = (Some (PathError ENOENT), ?w1)"
    using no_fault no_sidecar neq by (intro os_Remove_missing) simp_all
  have d: "DeleteVersion dataFilename checksumFile s w t
       = (Some (VersionNotFoundError (VersionDoesNotExist t)), ?w1)"
    by (simp add: DeleteVersion_def Let_def r1 r2 IsNotExist_def)
  have "?w1 \<noteq> w"
  proof
    assume "?w1 = w"
    then have "nodes ?w1 ?df = nodes w ?df" by simp
    with data show False by simp
  qed
  with d show ?thesis by simp
qed

text \<open>
  Version 1 of the store \<open>db\<close> has a data file and no sidecar.
\<close>

theorem DeleteVersion_without_sidecar_witness:
  "nodes (example_world example_corrupt_sidecar) (example_dataFilename example_store 1)
       = Some (RegularFile (bytes_of ''old''))
   \<and> nodes (example_world example_corrupt_sidecar)
         (example_checksumFile (example_dataFilename example_store 1)) = None
   \<and> fst (DeleteVersion example_dataFilename example_checksumFile example_store
         (example_world example_corrupt_sidecar) 1)
       = Some (VersionNotFoundError (VersionDoesNotExist 1))
   \<and> nodes (snd (DeleteVersion example_dataFilename example_checksumFile example_store
         (example_world example_corrupt_sidecar) 1)) ''db/1'' = None"
proof -
  let ?w = "example_world example_corrupt_sidecar"
  have 1: "nodes ?w (example_dataFilename example_store 1) = Some (RegularFile (bytes_of ''old''))"
    by (simp add: ex_dataFilename_1 example_world_def)
  have 2: "nodes ?w (example_checksumFile (example_dataFilename example_store 1)) = None"
    by (simp add: ex_dataFilename_1 example_world_def example_checksumFile_def)
  have 3: "faults ?w SysRemove (example_dataFilename example_store 1) = None"
    by (simp add: example_world_def)
  have 4: "faults ?w SysRemove (example_checksumFile (example_dataFilename example_store 1)) = None"
    by (simp add: example_world_def)
  from DeleteVersion_without_sidecar [where dataFilename = example_dataFilename
      and checksumFile = example_checksumFile, OF 1 2 3 4] 1 2
  show ?thesis by (simp add: ex_dataFilename_1)
qed

subsection \<open>Package deebee: the integrity checker is set once\<close>

lemma deebee_applyOptions_append:
  "deebee_applyOptions db (xs @ ys) =
     (case deebee_applyOptions db xs of Inl err \<Rightarrow> Inl err | Inr db' \<Rightarrow> deebee_applyOptions db' ys)"
  by (induction db xs rule: deebee_applyOptions.induct) (auto split: sum.split)

lemma deebee_applyOptions_error:
  "deebee_applyOptions db options = Inl err \<Longrightarrow> \<exists>e. err = ApplyingOptionFailed e"
  by (induction db options rule: deebee_applyOptions.induct) (auto split: sum.splits)

lemma IntegrityChecker_when_set:
  "fileIntegrityChecker db \<noteq> None \<Longrightarrow> IntegrityChecker checker db = Inl ConfiguredTwice"
  by (simp add: IntegrityChecker_def setFileIntegrityChecker_def)

lemma IntegrityChecker_result:
  "IntegrityChecker checker db = Inl ConfiguredTwice
   \<or> IntegrityChecker checker db = Inr (db\<lparr>fileIntegrityChecker := checker\<rparr>)"
  by (simp add: IntegrityChecker_def setFileIntegrityChecker_def)

lemma deebee_applyOptions_checkers_when_set:
  assumes "\<forall>opt \<in> set options. opt = None \<or> (\<exists>c. opt = Some (IntegrityChecker c))"
    and "fileIntegrityChecker db \<noteq> None"
  shows "deebee_applyOptions db options = Inr db
     \<or> deebee_applyOptions db options = Inl (ApplyingOptionFailed ConfiguredTwice)"
  using assms
proof (induction db options rule: deebee_applyOptions.induct)
  case (1 db)
  then show ?case by simp
next
  case (2 db options)
  then show ?case by simp
next
  case (3 db opt options)
  then obtain c where "opt = IntegrityChecker c" by auto
  with "3.prems" show ?case by (simp add: IntegrityChecker_when_set)
qed

lemma deebee_applyOptions_checkers:
  assumes "\<forall>opt \<in> set options. opt = None \<or> (\<exists>c. opt = Some (IntegrityChecker c))"
  shows "(\<exists>db'. deebee_applyOptions db options = Inr db')
     \<or> deebee_applyOptions db options = Inl (ApplyingOptionFailed ConfiguredTwice)"
  using assms
proof (induction db options rule: deebee_applyOptions.induct)
  case (1 db)
  then show ?case by simp
next
  case (2 db options)
  then show ?case by simp
next
  case (3 db opt options)
  then obtain c where c: "opt = IntegrityChecker c" by auto
  from IntegrityChecker_result [of c db] show ?case
  proof
    assume "IntegrityChecker c db = Inl ConfiguredTwice"
    with c show ?thesis by simp
  next
    assume r: "IntegrityChecker c db = Inr (db\<lparr>fileIntegrityChecker := c\<rparr>)"
    with c have "opt db = Inr (db\<lparr>fileIntegrityChecker := c\<rparr>)" by simp
    from "3.IH" [OF this] "3.prems" c r show ?thesis by simp
  qed
qed

lemma deebee_applyOptions_twice:
  assumes between: "\<forall>opt \<in> set mid. opt = None \<or> (\<exists>c. opt = Some (IntegrityChecker c))"
  shows "deebee_applyOptions db
      ([Some (IntegrityChecker (Some c1))] @ mid @ [Some (IntegrityChecker c2)] @ post)
        = Inl (ApplyingOptionFailed ConfiguredTwice)"
proof (cases "fileIntegrityChecker db \<noteq> None")
  case True
  then show ?thesis by (simp add: IntegrityChecker_when_set)
next
  case False
  let ?db = "db\<lparr>fileIntegrityChecker := Some c1\<rparr>"
  from False have first: "IntegrityChecker (Some c1) db = Inr ?db"
    by (simp add: IntegrityChecker_def setFileIntegrityChecker_def)
  have set: "fileIntegrityChecker ?db \<noteq> None" by simp
  from deebee_applyOptions_checkers_when_set [OF between set]
  have "deebee_applyOptions ?db (mid @ [Some (IntegrityChecker c2)] @ post)
      = Inl (ApplyingOptionFailed ConfiguredTwice)"
    by (auto simp: deebee_applyOptions_append IntegrityChecker_when_set [OF set])
  with first show ?thesis by simp
qed

text \<open>
  Claim C7. An options list sets the checker more than once when an \<open>IntegrityChecker\<close> option
  with a checker is followed, after nil entries and \<open>IntegrityChecker\<close> options only, by another
  \<open>IntegrityChecker\<close> option. For every such list \<open>Open\<close> returns an error and no database; for an
  existing directory the error is that of applying an option, and it is \<open>configured twice\<close>
  when the options before the first are nil entries and \<open>IntegrityChecker\<close> options too.
\<close>

theorem Open_checker_configured_twice:
  assumes twice: "options = pre @ [Some (IntegrityChecker (Some c1))] @ mid
                     @ [Some (IntegrityChecker c2)] @ post"
    and between: "\<forall>opt \<in> set mid. opt = None \<or> (\<exists>c. opt = Some (IntegrityChecker c))"
  shows "(\<exists>err. deebee_Open ChecksumIntegrityChecker d options = Inl err)
     \<and> (\<forall>dir'. d = Some dir' \<and> Exists dir' = Inr True \<longrightarrow>
          (\<exists>err. deebee_Open ChecksumIntegrityChecker d options = Inl (ApplyingOptionFailed err)))
     \<and> (\<forall>dir'. d = Some dir' \<and> Exists dir' = Inr True
            \<and> (\<forall>opt \<in> set pre. opt = None \<or> (\<exists>c. opt = Some (IntegrityChecker c))) \<longrightarrow>
          deebee_Open ChecksumIntegrityChecker d options
            = Inl (ApplyingOptionFailed ConfiguredTwice))"
proof -
  let ?rest = "[Some (IntegrityChecker (Some c1))] @ mid @ [Some (IntegrityChecker c2)] @ post"
  have rest: "deebee_applyOptions db ?rest = Inl (ApplyingOptionFailed ConfiguredTwice)" for db
    by (rule deebee_applyOptions_twice [OF between])
  have app: "\<exists>err. deebee_applyOptions db options = Inl (ApplyingOptionFailed err)" for db
  proof (cases "deebee_applyOptions db pre")
    case (Inl err)
    with deebee_applyOptions_error [OF Inl] twice show ?thesis
      by (auto simp: deebee_applyOptions_append)
  next
    case (Inr db')
    with rest [of db'] twice show ?thesis
      by (simp add: deebee_applyOptions_append)
  qed
  have app_checkers: "deebee_applyOptions db options = Inl (ApplyingOptionFailed ConfiguredTwice)"
    if "\<forall>opt \<in> set pre. opt = None \<or> (\<exists>c. opt = Some (IntegrityChecker c))" for db
  proof -
    from deebee_applyOptions_checkers [OF that, of db] show ?thesis
    proof
      assume "\<exists>db'. deebee_applyOptions db pre = Inr db'"
      then obtain db' where "deebee_applyOptions db pre = Inr db'" by blast
      with rest [of db'] twice show ?thesis by (simp add: deebee_applyOptions_append)
    next
      assume "deebee_applyOptions db pre = Inl (ApplyingOptionFailed ConfiguredTwice)"
      with twice show ?thesis by (simp add: deebee_applyOptions_append)
    qed
  qed
  show ?thesis
  proof (intro conjI allI impI)
    show "\<exists>err. deebee_Open ChecksumIntegrityChecker d options = Inl err"
    proof (cases d)
      case None
      then show ?thesis by (simp add: deebee_Open_def)
    next
      case (Some dir')
      from app [of "\<lparr>db_dir = dir', fileIntegrityChecker = None\<rparr>"] Some show ?thesis
        by (auto simp: deebee_Open_def split: sum.split)
    qed
  next
    fix dir'
    assume "d = Some dir' \<and> Exists dir' = Inr True"
    with app [of "\<lparr>db_dir = dir', fileIntegrityChecker = None\<rparr>"]
    show "\<exists>err. deebee_Open ChecksumIntegrityChecker d options = Inl (ApplyingOptionFailed err)"
      by (auto simp: deebee_Open_def)
  next
    fix dir'
    assume a: "d = Some dir' \<and> Exists dir' = Inr True
            \<and> (\<forall>opt \<in> set pre. opt = None \<or> (\<exists>c. opt = Some (IntegrityChecker c)))"
    then have "deebee_applyOptions \<lparr>db_dir = dir', fileIntegrityChecker = None\<rparr> options
        = Inl (ApplyingOptionFailed ConfiguredTwice)"
      by (intro app_checkers) simp
    with a show "deebee_Open ChecksumIntegrityChecker d options
            = Inl (ApplyingOptionFailed ConfiguredTwice)"
      by (simp add: deebee_Open_def)
  qed
qed

text \<open>
  Two checkers fail with \<open>configured twice\<close>; one checker alone is accepted.
\<close>

theorem Open_checker_configured_twice_witness:
  "Exists example_dir = Inr True
   \<and> deebee_Open example_ChecksumIntegrityChecker (Some example_dir)
        [Some (IntegrityChecker (Some 1)), None, Some (IntegrityChecker (Some 2))]
       = Inl (ApplyingOptionFailed ConfiguredTwice)
   \<and> deebee_Open example_ChecksumIntegrityChecker (Some example_dir)
        [Some (IntegrityChecker (Some 1))]
       = Inr \<lparr>db_dir = example_dir, fileIntegrityChecker = Some 1\<rparr>"
proof -
  have 1: "Exists example_dir = Inr True"
    by (simp add: example_dir_def)
  have 2: "[Some (IntegrityChecker (Some (1::nat))), None, Some (IntegrityChecker (Some 2))]
      = [] @ [Some (IntegrityChecker (Some 1))] @ [None] @ [Some (IntegrityChecker (Some 2))] @ []"
    by simp
  have 3: "\<forall>opt \<in> set [None :: nat deebee_Option option].
      opt = None \<or> (\<exists>c. opt = Some (IntegrityChecker c))"
    by simp
  from Open_checker_configured_twice [OF 2 3, of example_ChecksumIntegrityChecker
      "Some example_dir"] 1
  have a: "deebee_Open example_ChecksumIntegrityChecker (Some example_dir)
        [Some (IntegrityChecker (Some 1)), None, Some (IntegrityChecker (Some 2))]
       = Inl (ApplyingOptionFailed ConfiguredTwice)"
    by simp
  have b: "deebee_Open example_ChecksumIntegrityChecker (Some example_dir)
        [Some (IntegrityChecker (Some 1))]
       = Inr \<lparr>db_dir = example_dir, fileIntegrityChecker = Some 1\<rparr>"
    by (simp add: deebee_Open_def example_dir_def IntegrityChecker_def
        setFileIntegrityChecker_def useDefaultFileIntegrityCheckerIfNotSet_def)
  from 1 a b show ?thesis by simp
qed

text \<open>
  The field is compared with nil to tell whether a checker is set: an \<open>IntegrityChecker\<close> option
  with a nil checker leaves it unset, and a checker may follow it.
\<close>

lemma Open_nil_checker_leaves_unset:
  "deebee_Open example_ChecksumIntegrityChecker (Some example_dir)
        [Some (IntegrityChecker None), Some (IntegrityChecker (Some 2))]
       = Inr \<lparr>db_dir = example_dir, fileIntegrityChecker = Some 2\<rparr>"
  by (simp add: deebee_Open_def example_dir_def IntegrityChecker_def
        setFileIntegrityChecker_def useDefaultFileIntegrityCheckerIfNotSet_def)

subsection \<open>Package store: Read at end-of-stream\<close>

lemma validateChecksum_Inl:
  "readChecksum cf w r = Inl err \<Longrightarrow> validateChecksum cf w r = Some (ErrorReadingChecksum err)"
  by (simp add: validateChecksum_def)

text \<open>
  Claim C2, as amended. When the data file reports end-of-stream, \<open>Read\<close> loads the sidecar and
  runs the comparison the reader holds before it reports anything: it returns end-of-stream
  when the comparison passes, the verification error \<open>invalid checksum\<close> in its place when the
  comparison fails, and the error of reading the sidecar when that cannot be read. On an
  error the bytes the file delivered are still returned and the reader is left as it was:
  its position and the bytes hashed so far are not taken back. The comparison is not the
  equality of the bytes alone: with verification enabled it passes for equal bytes and for a
  sidecar that reads \<open>ALTERED\<close> (alone or followed by a line feed or by a carriage return and
  a line feed), and every other sidecar gives the verification error; with
  \<open>NoIntegrityCheck\<close> it always passes.
\<close>

theorem Read_at_end_of_stream:
  assumes eof: "file_Read w (reader_file r) k = (bs, Some EOF, f')"
  shows "reader_Read checksumFile w d (r, m) k =
       (case readChecksum checksumFile w r of
          Inl err \<Rightarrow> ((bs, Some (ErrorReadingChecksum err)), r, addElapsedTime m d)
        | Inr expected \<Rightarrow>
            if reader_areChecksumsEqual r expected (hash_Sum (checksum r) [])
            then ((bs, Some EOF), r\<lparr>checksum := hash_Write (checksum r) bs\<rparr>,
                  addElapsedTime (m\<lparr>TotalBytesRead := TotalBytesRead m + of_nat (length bs)\<rparr>) d)
            else ((bs, Some (InvalidChecksum (Name (reader_file r)))), r, addElapsedTime m d))
     \<and> (\<forall>expected. readChecksum checksumFile w r = Inr expected
            \<and> reader_areChecksumsEqual r = default_areChecksumsEqual \<longrightarrow>
          (snd (fst (reader_Read checksumFile w d (r, m) k)) = Some EOF
             \<longleftrightarrow> expected = hash_Sum (checksum r) []
                \<or> expected \<in> {bytes_of ''ALTERED'', bytes_of (''ALTERED'' @ [CHR 0x0A]),
                     bytes_of (''ALTERED'' @ [CHR 0x0D, CHR 0x0A])})
          \<and> (snd (fst (reader_Read checksumFile w d (r, m) k)) \<noteq> Some EOF
             \<longrightarrow> snd (fst (reader_Read checksumFile w d (r, m) k))
                   = Some (InvalidChecksum (Name (reader_file r)))))
     \<and> (\<forall>expected. readChecksum checksumFile w r = Inr expected
            \<and> reader_areChecksumsEqual r = (\<lambda>expected actual. True) \<longrightarrow>
          snd (fst (reader_Read checksumFile w d (r, m) k)) = Some EOF)"
proof -
  have eq: "reader_Read checksumFile w d (r, m) k =
       (case readChecksum checksumFile w r of
          Inl err \<Rightarrow> ((bs, Some (ErrorReadingChecksum err)), r, addElapsedTime m d)
        | Inr expected \<Rightarrow>
            if reader_areChecksumsEqual r expected (hash_Sum (checksum r) [])
            then ((bs, Some EOF), r\<lparr>checksum := hash_Write (checksum r) bs\<rparr>,
                  addElapsedTime (m\<lparr>TotalBytesRead := TotalBytesRead m + of_nat (length bs)\<rparr>) d)
            else ((bs, Some (InvalidChecksum (Name (reader_file r)))), r, addElapsedTime m d))"
  proof (cases "readChecksum checksumFile w r")
    case (Inl err)
    then show ?thesis
      by (simp add: reader_Read_EOF [OF eof] validateChecksum_Inl)
  next
    case (Inr expected)
    then show ?thesis
      by (simp add: reader_Read_EOF [OF eof] validateChecksum_Inr)
  qed
  show ?thesis
  proof (intro conjI allI impI)
    show "reader_Read checksumFile w d (r, m) k =
       (case readChecksum checksumFile w r of
          Inl err \<Rightarrow> ((bs, Some (ErrorReadingChecksum err)), r, addElapsedTime m d)
        | Inr expected \<Rightarrow>
            if reader_areChecksumsEqual r expected (hash_Sum (checksum r) [])
            then ((bs, Some EOF), r\<lparr>checksum := hash_Write (checksum r) bs\<rparr>,
                  addElapsedTime (m\<lparr>TotalBytesRead := TotalBytesRead m + of_nat (length bs)\<rparr>) d)
            else ((bs, Some (InvalidChecksum (Name (reader_file r)))), r, addElapsedTime m d))"
      by (rule eq)
  next
    fix expected
    assume "readChecksum checksumFile w r = Inr expected
            \<and> reader_areChecksumsEqual r = default_areChecksumsEqual"
    then show "snd (fst (reader_Read checksumFile w d (r, m) k)) = Some EOF
             \<longleftrightarrow> expected = hash_Sum (checksum r) []
                \<or> expected \<in> {bytes_of ''ALTERED'', bytes_of (''ALTERED'' @ [CHR 0x0A]),
                     bytes_of (''ALTERED'' @ [CHR 0x0D, CHR 0x0A])}"
      by (simp add: eq default_areChecksumsEqual_iff)
  next
    fix expected
    assume "readChecksum checksumFile w r = Inr expected
            \<and> reader_areChecksumsEqual r = default_areChecksumsEqual"
       and "snd (fst (reader_Read checksumFile w d (r, m) k)) \<noteq> Some EOF"
    then show "snd (fst (reader_Read checksumFile w d (r, m) k))
                   = Some (InvalidChecksum (Name (reader_file r)))"
      by (simp add: eq split: if_splits)
  next
    fix expected
    assume "readChecksum checksumFile w r = Inr expected
            \<and> reader_areChecksumsEqual r = (\<lambda>expected actual. True)"
    then show "snd (fst (reader_Read checksumFile w d (r, m) k)) = Some EOF"
      by (simp add: eq)
  qed
qed

lemma ex_digest_eq:
  "hash_Sum (checksum (example_reader pos (bytes_of ''data''))) [] = example_digest"
  by (simp add: ex_digest example_digest_def)

lemma ex_enabled:
  "reader_areChecksumsEqual (example_reader pos hashed) = default_areChecksumsEqual"
  by (simp add: example_reader_def)

lemma ex_Name: "Name (reader_file (example_reader pos hashed)) = ''db/2''"
  by (simp add: example_reader_def)

text \<open>
  The first \<open>Read\<close> delivers \<open>data\<close>. With the matching sidecar the next \<open>Read\<close> reports
  end-of-stream; with the corrupted sidecar it returns the verification error, with the
  reader where the first \<open>Read\<close> left it.
\<close>

theorem Read_at_end_of_stream_witness:
  "fst (reader_Read example_checksumFile (example_world example_digest) 5
        (example_reader 0 [], Read zeroMetrics) 16) = (bytes_of ''data'', None)
   \<and> fst (snd (reader_Read example_checksumFile (example_world example_digest) 5
        (example_reader 0 [], Read zeroMetrics) 16)) = example_reader 4 (bytes_of ''data'')
   \<and> file_Read (example_world example_digest)
        (reader_file (example_reader 4 (bytes_of ''data''))) 16
       = ([], Some EOF, reader_file (example_reader 4 (bytes_of ''data'')))
   \<and> fst (reader_Read example_checksumFile (example_world example_digest) 7
        (example_reader 4 (bytes_of ''data''), Read zeroMetrics) 16) = ([], Some EOF)
   \<and> reader_Read example_checksumFile (example_world example_corrupt_sidecar) 7
        (example_reader 4 (bytes_of ''data''), Read zeroMetrics) 16
       = (([], Some (InvalidChecksum ''db/2'')), example_reader 4 (bytes_of ''data''),
          addElapsedTime (Read zeroMetrics) 7)"
proof -
  let ?r = "example_reader 4 (bytes_of ''data'')"
  have 1: "file_Read (example_world sc) (reader_file ?r) 16 = ([], Some EOF, reader_file ?r)" for sc
    by (rule ex_file_Read_end)
  have good: "reader_areChecksumsEqual ?r example_digest (hash_Sum (checksum ?r) [])"
    by (simp add: ex_enabled ex_digest_eq default_areChecksumsEqual_def)
  have bad: "\<not> reader_areChecksumsEqual ?r example_corrupt_sidecar (hash_Sum (checksum ?r) [])"
    using ex_corrupt_differs [of 4] ex_corrupt_not_altered
    by (simp add: ex_enabled default_areChecksumsEqual_iff)
  from Read_at_end_of_stream [where checksumFile = example_checksumFile and d = 7
      and m = "Read zeroMetrics", OF 1 [of example_digest]]
  have a: "fst (reader_Read example_checksumFile (example_world example_digest) 7
        (?r, Read zeroMetrics) 16) = ([], Some EOF)"
    by (simp add: ex_readChecksum good)
  from Read_at_end_of_stream [where checksumFile = example_checksumFile and d = 7
      and m = "Read zeroMetrics", OF 1 [of example_corrupt_sidecar]]
  have b: "reader_Read example_checksumFile (example_world example_corrupt_sidecar) 7
        (?r, Read zeroMetrics) 16
       = (([], Some (InvalidChecksum ''db/2'')), ?r, addElapsedTime (Read zeroMetrics) 7)"
    by (simp add: ex_readChecksum bad ex_Name)
  from a b 1 [of example_digest] ex_read [of example_digest 5 "Read zeroMetrics"]
  show ?thesis by simp
qed

text \<open>
  Claim C2 as stated fails: at end-of-stream the sidecar holds \<open>ALTERED\<close>, the recomputed
  digest is another sequence of bytes, and \<open>Read\<close> reports end-of-stream, not the
  verification error.
\<close>

theorem Read_altered_sidecar_counterexample:
  "file_Read (example_world (bytes_of ''ALTERED''))
        (reader_file (example_reader 4 (bytes_of ''data''))) 16
       = ([], Some EOF, reader_file (example_reader 4 (bytes_of ''data'')))
   \<and> readChecksum example_checksumFile (example_world (bytes_of ''ALTERED''))
        (example_reader 4 (bytes_of ''data'')) = Inr (bytes_of ''ALTERED'')
   \<and> hash_Sum (checksum (example_reader 4 (bytes_of ''data''))) [] = example_digest
   \<and> bytes_of ''ALTERED'' \<noteq> example_digest
   \<and> fst (reader_Read example_checksumFile (example_world (bytes_of ''ALTERED'')) 7
        (example_reader 4 (bytes_of ''data''), Read zeroMetrics) 16) = ([], Some EOF)"
proof -
  let ?r = "example_reader 4 (bytes_of ''data'')"
  let ?w = "example_world (bytes_of ''ALTERED'')"
  have 1: "file_Read ?w (reader_file ?r) 16 = ([], Some EOF, reader_file ?r)"
    by (rule ex_file_Read_end)
  have 2: "readChecksum example_checksumFile ?w ?r = Inr (bytes_of ''ALTERED'')"
    by (rule ex_readChecksum)
  have 3: "bytes_of ''ALTERED'' \<noteq> example_digest"
    by (simp add: example_digest_def bytes_of_def)
  have "validateChecksum example_checksumFile ?w ?r = None"
    by (simp add: validateChecksum_Inr [OF 2] ex_enabled default_areChecksumsEqual_def)
  then have 4: "fst (reader_Read example_checksumFile ?w 7 (?r, Read zeroMetrics) 16)
      = ([], Some EOF)"
    by (simp add: reader_Read_EOF [OF 1])
  from 1 2 3 4 ex_digest_eq [of 4] show ?thesis by simp
qed

subsection \<open>Package store: the metrics\<close>

lemma sint_add_fits:
  fixes c b :: "64 word"
  assumes "fits c (sint b)"
  shows "sint (c + b) = sint c + sint b"
proof -
  have lo: "- (2 ^ 63) \<le> sint c" using sint_ge [of c] by simp
  from assms have "0 \<le> sint b" and "sint c + sint b < 2 ^ 63"
    by (simp_all add: fits_def)
  with lo have "- (2 ^ 63) \<le> sint c + sint b" "sint c + sint b < 2 ^ 63" by simp_all
  then have "signed_take_bit 63 (sint c + sint b) = sint c + sint b"
    by (simp add: signed_take_bit_int_eq_self)
  then show ?thesis by (simp add: sint_word_ariths)
qed

lemma sint_one64: "sint (1 :: 64 word) = 1"
  by simp

lemma sint_of_nat64: "int n < 2 ^ 63 \<Longrightarrow> sint (of_nat n :: 64 word) = int n"
proof -
  assume "int n < 2 ^ 63"
  moreover have "- (2 ^ 63) \<le> int n" by (rule order_trans [of _ 0]) simp_all
  ultimately have "signed_take_bit 63 (int n) = int n"
    by (simp add: signed_take_bit_int_eq_self)
  then show ?thesis by (simp add: signed_of_nat)
qed

lemma metrics_le_refl: "metrics_le m m"
  by (simp add: metrics_le_def)

lemma metrics_le_trans: "metrics_le a b \<Longrightarrow> metrics_le b c \<Longrightarrow> metrics_le a c"
  by (auto simp: metrics_le_def)

lemma sint_succ_fits:
  fixes c :: "64 word"
  shows "fits c 1 \<Longrightarrow> sint c \<le> sint (c + 1)"
  using sint_add_fits [of c 1] by simp

lemma sint_add_nat_fits:
  fixes c :: "64 word"
  assumes "fits c (int n)"
  shows "sint c \<le> sint (c + of_nat n)"
proof -
  from assms have n: "int n < 2 ^ 63" by (simp add: fits_def)
  then have s: "sint (of_nat n :: 64 word) = int n" by (rule sint_of_nat64)
  with assms have "fits c (sint (of_nat n :: 64 word))" by simp
  then have "sint (c + of_nat n) = sint c + int n"
    using s by (simp add: sint_add_fits)
  then show ?thesis by simp
qed

lemma sint_add_duration_fits:
  fixes c d :: "64 word"
  assumes "fits c (sint d)"
  shows "sint c \<le> sint (c + d)"
proof -
  from assms have "0 \<le> sint d" by (simp add: fits_def)
  with sint_add_fits [OF assms] show ?thesis by simp
qed

lemma reader_Read_metrics:
  assumes "reader_Read cf w d (r, m) k = ((bs, err), r', m')"
    and "fits (TotalBytesRead m) (int (length bs))"
    and "fits (TotalTime m) (sint d)"
  shows "ReaderCalls m' = ReaderCalls m \<and> sint (TotalBytesRead m) \<le> sint (TotalBytesRead m')
     \<and> sint (TotalTime m) \<le> sint (TotalTime m')"
  using assms sint_add_nat_fits [OF assms(2)] sint_add_duration_fits [OF assms(3)]
  by (auto simp: reader_Read_def addElapsedTime_def Let_def split: prod.splits option.splits if_splits)

lemma reader_Close_metrics:
  assumes "reader_Close cf w d (r, m) = (res, r', m')"
    and "fits (TotalTime m) (sint d)"
  shows "ReaderCalls m' = ReaderCalls m \<and> TotalBytesRead m' = TotalBytesRead m
     \<and> sint (TotalTime m) \<le> sint (TotalTime m')"
  using assms sint_add_duration_fits [OF assms(2)]
  by (auto simp: reader_Close_def addElapsedTime_def split: prod.splits option.splits)

lemma step_metrics_le:
  assumes "step_fits checksumFile st op"
  shows "metrics_le (metrics (sys_store st))
     (metrics (sys_store (step versions dataFilename newHash checksumFile openWriter st op)))"
proof (cases op)
  case (OpWriter options)
  with assms show ?thesis
    by (simp add: Store_Writer_def Let_def metrics_le_def sint_succ_fits split: prod.split)
next
  case (OpReader options)
  with assms show ?thesis
    by (simp add: Store_Reader_def Let_def metrics_le_def sint_succ_fits split: prod.split sum.split)
next
  case (OpRead i k d)
  show ?thesis
  proof (cases "i < length (sys_readers st)")
    case True
    obtain bs err r' m' where rd: "reader_Read checksumFile (sys_world st) d
        (sys_readers st ! i, Read (metrics (sys_store st))) k = ((bs, err), r', m')"
      by (metis prod.exhaust)
    with assms OpRead True
    have f: "fits (TotalBytesRead (Read (metrics (sys_store st)))) (int (length bs))"
        "fits (TotalTime (Read (metrics (sys_store st)))) (sint d)"
      by simp_all
    from reader_Read_metrics [OF rd f] OpRead True rd show ?thesis
      by (simp add: metrics_le_def)
  next
    case False
    with OpRead show ?thesis by (simp add: metrics_le_refl)
  qed
next
  case (OpClose i d)
  show ?thesis
  proof (cases "i < length (sys_readers st)")
    case True
    obtain res r' m' where cl: "reader_Close checksumFile (sys_world st) d
        (sys_readers st ! i, Read (metrics (sys_store st))) = (res, r', m')"
      by (metis prod.exhaust)
    from assms OpClose True
    have f: "fits (TotalTime (Read (metrics (sys_store st)))) (sint d)"
      by simp
    from reader_Close_metrics [OF cl f] OpClose True cl show ?thesis
      by (simp add: metrics_le_def)
  next
    case False
    with OpClose show ?thesis by (simp add: metrics_le_refl)
  qed
qed

lemma run_metrics_le:
  "run_fits versions dataFilename newHash checksumFile openWriter st ops \<Longrightarrow>
   metrics_le (metrics (sys_store st))
     (metrics (sys_store (run versions dataFilename newHash checksumFile openWriter st ops)))"
proof (induction ops arbitrary: st)
  case Nil
  then show ?case by (simp add: run_def metrics_le_refl)
next
  case (Cons op ops)
  let ?st = "step versions dataFilename newHash checksumFile openWriter st op"
  from Cons.prems have "step_fits checksumFile st op"
    and rest: "run_fits versions dataFilename newHash checksumFile openWriter ?st ops"
    by simp_all
  then have "metrics_le (metrics (sys_store st)) (metrics (sys_store ?st))"
    by (simp add: step_metrics_le)
  moreover from Cons.IH [OF rest] have "metrics_le (metrics (sys_store ?st))
     (metrics (sys_store (run versions dataFilename newHash checksumFile openWriter ?st ops)))" .
  ultimately show ?case
    by (simp add: run_def metrics_le_trans)
qed

lemma run_append:
  "run versions dataFilename newHash checksumFile openWriter st (xs @ ys)
     = run versions dataFilename newHash checksumFile openWriter
         (run versions dataFilename newHash checksumFile openWriter st xs) ys"
  by (simp add: run_def)

lemma run_fits_append:
  "run_fits versions dataFilename newHash checksumFile openWriter st (xs @ ys) \<Longrightarrow>
   run_fits versions dataFilename newHash checksumFile openWriter
     (run versions dataFilename newHash checksumFile openWriter st xs) ys"
  by (induction xs arbitrary: st) (simp_all add: run_def)

text \<open>
  Claim C9, as amended. In every sequence of \<open>Writer\<close>, \<open>Reader\<close>, \<open>Read\<close> and \<open>Close\<close>
  operations on one store, from any state of the store, in which no addition to a counter
  wraps around (every sum stays below \<open>2^63\<close>, and no duration measured is negative): the
  number of writers opened, the number of readers opened, the total of the bytes read and
  the total time of the \<open>Read\<close> and \<open>Close\<close> calls after the sequence \<open>xs @ ys\<close> are not below
  what they were after its first part \<open>xs\<close>.
\<close>

theorem metrics_never_decrease_in_range:
  assumes "run_fits versions dataFilename newHash checksumFile openWriter st (xs @ ys)"
  shows "sint (WriterCalls (Write (Store_Metrics (sys_store
        (run versions dataFilename newHash checksumFile openWriter st xs)))))
     \<le> sint (WriterCalls (Write (Store_Metrics (sys_store
        (run versions dataFilename newHash checksumFile openWriter st (xs @ ys))))))
   \<and> sint (ReaderCalls (Read (Store_Metrics (sys_store
        (run versions dataFilename newHash checksumFile openWriter st xs)))))
     \<le> sint (ReaderCalls (Read (Store_Metrics (sys_store
        (run versions dataFilename newHash checksumFile openWriter st (xs @ ys))))))
   \<and> sint (TotalBytesRead (Read (Store_Metrics (sys_store
        (run versions dataFilename newHash checksumFile openWriter st xs)))))
     \<le> sint (TotalBytesRead (Read (Store_Metrics (sys_store
        (run versions dataFilename newHash checksumFile openWriter st (xs @ ys))))))
   \<and> sint (TotalTime (Read (Store_Metrics (sys_store
        (run versions dataFilename newHash checksumFile openWriter st xs)))))
     \<le> sint (TotalTime (Read (Store_Metrics (sys_store
        (run versions dataFilename newHash checksumFile openWriter st (xs @ ys))))))"
  using run_metrics_le [OF run_fits_append [OF assms]]
  by (simp add: run_append metrics_le_def Store_Metrics_def)

lemma ex_run_fits:
  "run_fits example_versions example_dataFilename fnv128a_Hash example_checksumFile
      example_openWriter example_system
      ([OpWriter [], OpReader [], OpRead 0 16 5] @ [OpRead 0 16 7, OpClose 0 1])"
  by code_simp

lemma ex_run_TotalTime:
  "sint (TotalTime (Read (Store_Metrics (sys_store
      (run example_versions example_dataFilename fnv128a_Hash example_checksumFile
         example_openWriter example_system [OpWriter [], OpReader [], OpRead 0 16 5]))))) = 5
   \<and> sint (TotalTime (Read (Store_Metrics (sys_store
      (run example_versions example_dataFilename fnv128a_Hash example_checksumFile
         example_openWriter example_system
         ([OpWriter [], OpReader [], OpRead 0 16 5] @ [OpRead 0 16 7, OpClose 0 1])))))) = 13
   \<and> sint (TotalBytesRead (Read (Store_Metrics (sys_store
      (run example_versions example_dataFilename fnv128a_Hash example_checksumFile
         example_openWriter example_system
         ([OpWriter [], OpReader [], OpRead 0 16 5] @ [OpRead 0 16 7, OpClose 0 1])))))) = 4"
  by code_simp

text \<open>
  A writer and a reader are opened, the reader delivers \<open>data\<close>, meets the end of the file
  and is closed: the total time grows from 5 to 13, and 4 bytes have been read.
\<close>

theorem metrics_never_decrease_in_range_witness:
  "run_fits example_versions example_dataFilename fnv128a_Hash example_checksumFile
      example_openWriter example_system
      ([OpWriter [], OpReader [], OpRead 0 16 5] @ [OpRead 0 16 7, OpClose 0 1])
   \<and> sint (TotalTime (Read (Store_Metrics (sys_store
      (run example_versions example_dataFilename fnv128a_Hash example_checksumFile
         example_openWriter example_system [OpWriter [], OpReader [], OpRead 0 16 5])))))
     \<le> sint (TotalTime (Read (Store_Metrics (sys_store
      (run example_versions example_dataFilename fnv128a_Hash example_checksumFile
         example_openWriter example_system
         ([OpWriter [], OpReader [], OpRead 0 16 5] @ [OpRead 0 16 7, OpClose 0 1]))))))
   \<and> sint (TotalTime (Read (Store_Metrics (sys_store
      (run example_versions example_dataFilename fnv128a_Hash example_checksumFile
         example_openWriter example_system [OpWriter [], OpReader [], OpRead 0 16 5]))))) = 5
   \<and> sint (TotalTime (Read (Store_Metrics (sys_store
      (run example_versions example_dataFilename fnv128a_Hash example_checksumFile
         example_openWriter example_system
         ([OpWriter [], OpReader [], OpRead 0 16 5] @ [OpRead 0 16 7, OpClose 0 1])))))) = 13
   \<and> sint (TotalBytesRead (Read (Store_Metrics (sys_store
      (run example_versions example_dataFilename fnv128a_Hash example_checksumFile
         example_openWriter example_system
         ([OpWriter [], OpReader [], OpRead 0 16 5] @ [OpRead 0 16 7, OpClose 0 1])))))) = 4"
  using metrics_never_decrease_in_range [OF ex_run_fits] ex_run_fits ex_run_TotalTime
  by blast

text \<open>
  Claim C9 as stated fails: with the count of bytes read at \<open>2^63 - 3\<close>, a \<open>Read\<close> that
  delivers the four bytes of \<open>data\<close> wraps the counter around to a negative number, below
  what it was.
\<close>

theorem metrics_wrap_around_counterexample:
  "sint (TotalBytesRead (Read (Store_Metrics (sys_store example_full_system))))
       = 9223372036854775805
   \<and> sint (TotalBytesRead (Read (Store_Metrics (sys_store
        (run example_versions example_dataFilename fnv128a_Hash example_checksumFile
           example_openWriter example_full_system [OpRead 0 16 0])))))
       = - 9223372036854775807
   \<and> sint (TotalBytesRead (Read (Store_Metrics (sys_store
        (run example_versions example_dataFilename fnv128a_Hash example_checksumFile
           example_openWriter example_full_system [OpRead 0 16 0])))))
       < sint (TotalBytesRead (Read (Store_Metrics (sys_store example_full_system))))"
  by code_simp

subsection \<open>Package deebee: the next version name\<close>

lemma filterDatafiles_versions:
  "map filename_version (filterDatafiles parseVersion files) = List.map_filter parseVersion files"
  by (induction files) (auto simp: filterDatafiles_def List.map_filter_simps split: option.split)

lemma youngest_foldl:
  "filename_version (foldl (\<lambda>y g. if filename_version y < filename_version g then g else y) f fs)
     = Max (set (map filename_version (f # fs)))"
proof (induction fs arbitrary: f)
  case Nil
  then show ?case by simp
next
  case (Cons g fs)
  show ?case
  proof (cases "filename_version f < filename_version g")
    case True
    then have "max (filename_version g) (filename_version f) = filename_version g" by simp
    with True Cons.IH [of g] show ?thesis
      by (cases "fs = []") (simp_all add: Max_insert max.assoc [symmetric] max.commute)
  next
    case False
    then have "max (filename_version f) (filename_version g) = filename_version f" by simp
    with False Cons.IH [of f] show ?thesis
      by (cases "fs = []") (simp_all add: Max_insert max.assoc [symmetric])
  qed
qed

lemma youngestFilename_None:
  "youngestFilename names = None \<longleftrightarrow> names = []"
  by (simp add: youngestFilename_def split: list.split)

lemma youngestFilename_Some:
  "names \<noteq> [] \<Longrightarrow>
   \<exists>f. youngestFilename names = Some f
      \<and> filename_version f = Max (set (map filename_version names))"
  by (cases names) (simp_all add: youngestFilename_def youngest_foldl del: set_map list.map)

lemma map_filter_Nil_iff:
  "List.map_filter p xs = [] \<longleftrightarrow> (\<forall>x \<in> set xs. p x = None)"
  by (induction xs) (auto simp: List.map_filter_simps split: option.split)

text \<open>
  Claim C6. When the files of the state directory can be listed: if no listed name is the
  name of a version (no data file exists), the new version is named \<open>0\<close>; if at least one
  is, the new name is the generated name of the number that follows the greatest version
  among the listed data files, the chronologically latest.
\<close>

theorem nextVersionFilename_after_latest:
  assumes listed: "ListFiles stateDir = Inr files"
  shows "((\<forall>name \<in> set files. parseVersion name = None) \<longrightarrow>
            nextVersionFilename (filterDatafiles parseVersion) youngestFilename generateFilename
              stateDir = Inr ''0'')
     \<and> ((\<exists>name \<in> set files. parseVersion name \<noteq> None) \<longrightarrow>
            nextVersionFilename (filterDatafiles parseVersion) youngestFilename generateFilename
              stateDir
              = Inr (generateFilename (Max (set (List.map_filter parseVersion files)) + 1)))"
proof (intro conjI impI)
  assume "\<forall>name \<in> set files. parseVersion name = None"
  then have "List.map_filter parseVersion files = []"
    by (simp add: map_filter_Nil_iff)
  then have "map filename_version (filterDatafiles parseVersion files) = []"
    by (simp add: filterDatafiles_versions)
  then have "youngestFilename (filterDatafiles parseVersion files) = None"
    by (simp add: youngestFilename_None)
  with listed show "nextVersionFilename (filterDatafiles parseVersion) youngestFilename
      generateFilename stateDir = Inr ''0''"
    by (simp add: nextVersionFilename_def)
next
  assume "\<exists>name \<in> set files. parseVersion name \<noteq> None"
  then have "List.map_filter parseVersion files \<noteq> []"
    by (simp add: map_filter_Nil_iff)
  then have "map filename_version (filterDatafiles parseVersion files) \<noteq> []"
    by (simp add: filterDatafiles_versions)
  then have "filterDatafiles parseVersion files \<noteq> []" by auto
  from youngestFilename_Some [OF this]
  obtain f where f: "youngestFilename (filterDatafiles parseVersion files) = Some f"
      "filename_version f = Max (set (List.map_filter parseVersion files))"
    by (auto simp: filterDatafiles_versions)
  with listed show "nextVersionFilename (filterDatafiles parseVersion) youngestFilename
      generateFilename stateDir
      = Inr (generateFilename (Max (set (List.map_filter parseVersion files)) + 1))"
    by (simp add: nextVersionFilename_def)
qed

lemma ex_parsed:
  "List.map_filter example_parseVersion [''0'', ''0.fnv128a'', ''2'', ''1'', ''1.fnv128a'']
     = [0, 2, 1]"
  by code_simp

lemma ex_parsed_none:
  "List.map_filter example_parseVersion [''lock'', ''0.fnv128a''] = []"
  by code_simp

lemma ex_generate_3: "example_generateFilename 3 = ''3''"
  by code_simp

text \<open>
  With the data files 0, 2 and 1 and two sidecars the next name is 3; with a sidecar and
  another entry but no data file it is 0.
\<close>

theorem nextVersionFilename_after_latest_witness:
  "ListFiles (example_stateDir [''0'', ''0.fnv128a'', ''2'', ''1'', ''1.fnv128a''])
       = Inr [''0'', ''0.fnv128a'', ''2'', ''1'', ''1.fnv128a'']
   \<and> List.map_filter example_parseVersion [''0'', ''0.fnv128a'', ''2'', ''1'', ''1.fnv128a'']
       = [0, 2, 1]
   \<and> nextVersionFilename (filterDatafiles example_parseVersion) youngestFilename
        example_generateFilename
        (example_stateDir [''0'', ''0.fnv128a'', ''2'', ''1'', ''1.fnv128a'']) = Inr ''3''
   \<and> List.map_filter example_parseVersion [''lock'', ''0.fnv128a''] = []
   \<and> nextVersionFilename (filterDatafiles example_parseVersion) youngestFilename
        example_generateFilename
        (example_stateDir [''lock'', ''0.fnv128a'']) = Inr ''0''"
proof -
  have 1: "ListFiles (example_stateDir [''0'', ''0.fnv128a'', ''2'', ''1'', ''1.fnv128a''])
       = Inr [''0'', ''0.fnv128a'', ''2'', ''1'', ''1.fnv128a'']"
    by (simp add: example_stateDir_def)
  have 2: "ListFiles (example_stateDir [''lock'', ''0.fnv128a'']) = Inr [''lock'', ''0.fnv128a'']"
    by (simp add: example_stateDir_def)
  have some: "\<exists>name \<in> set [''0'', ''0.fnv128a'', ''2'', ''1'', ''1.fnv128a''].
      example_parseVersion name \<noteq> None"
  proof -
    have "List.map_filter example_parseVersion [''0'', ''0.fnv128a'', ''2'', ''1'', ''1.fnv128a'']
        \<noteq> []"
      by (simp only: ex_parsed) simp
    with map_filter_Nil_iff [of example_parseVersion
        "[''0'', ''0.fnv128a'', ''2'', ''1'', ''1.fnv128a'']"]
    show ?thesis by blast
  qed
  have none: "\<forall>name \<in> set [''lock'', ''0.fnv128a'']. example_parseVersion name = None"
    using ex_parsed_none map_filter_Nil_iff [of example_parseVersion "[''lock'', ''0.fnv128a'']"]
    by blast
  have m: "Max (set [0, 2, 1 :: int]) + 1 = 3" by simp
  from nextVersionFilename_after_latest [where parseVersion = example_parseVersion
      and generateFilename = example_generateFilename, OF 1] some
  have "nextVersionFilename (filterDatafiles example_parseVersion) youngestFilename
        example_generateFilename
        (example_stateDir [''0'', ''0.fnv128a'', ''2'', ''1'', ''1.fnv128a''])
      = Inr (example_generateFilename (Max (set (List.map_filter example_parseVersion
          [''0'', ''0.fnv128a'', ''2'', ''1'', ''1.fnv128a''])) + 1))"
    by blast
  then have a: "nextVersionFilename (filterDatafiles example_parseVersion) youngestFilename
        example_generateFilename
        (example_stateDir [''0'', ''0.fnv128a'', ''2'', ''1'', ''1.fnv128a'']) = Inr ''3''"
    by (simp only: ex_parsed m ex_generate_3)
  from nextVersionFilename_after_latest [where parseVersion = example_parseVersion
      and generateFilename = example_generateFilename, OF 2] none
  have b: "nextVersionFilename (filterDatafiles example_parseVersion) youngestFilename
        example_generateFilename (example_stateDir [''lock'', ''0.fnv128a'']) = Inr ''0''"
    by blast
  from 1 a b ex_parsed ex_parsed_none show ?thesis by (simp only: simp_thms)
qed

end
